theory Spec2Isabelle
  imports Main
begin

section \<open>JavaScript strings\<close>

text \<open>
  A JavaScript string is a sequence of UTF-16 code units.  It is modelled as the list of
  its code unit values, so that characters such as U+2028 can be written.  The function
  \<open>js\<close> turns an (ASCII) literal into such a string and \<open>ch\<close> a character into its
  code unit.
\<close>

type_synonym jsstr = "nat list"

definition ch :: "char \<Rightarrow> nat" where
  "ch c = of_char c"

definition js :: "string \<Rightarrow> jsstr" where
  "js s = map ch s"

text \<open>\<open>s.replace(/c/g, r)\<close> for a pattern that is the single character \<open>c\<close>.\<close>

definition replaceAll :: "nat \<Rightarrow> jsstr \<Rightarrow> jsstr \<Rightarrow> jsstr" where
  "replaceAll c r s = concat (map (\<lambda>x. if x = c then r else [x]) s)"

text \<open>
  \<open>String.prototype.toLowerCase\<close> on the ASCII range, where tag names live; other code
  units are left as they are.
\<close>

definition toLowerCase :: "jsstr \<Rightarrow> jsstr" where
  "toLowerCase s = map (\<lambda>c. if 65 \<le> c \<and> c \<le> 90 then c + 32 else c) s"

section \<open>The intermediate tree\<close>

text \<open>
  Attribute values are strings, character references, template tags, functions, or arrays
  of these.  The payload \<open>'s\<close> of a \<open>Special\<close> is the parsed template tag.
\<close>

datatype 's attrval =
    AStr jsstr
  | ACharRef jsstr jsstr
  | ASpecial 's
  | AFun
  | AArr "'s attrval list"

text \<open>
  The nodes: \<open>Null\<close> stands for \<open>null\<close> and \<open>undefined\<close>; \<open>CharRef html str\<close>,
  \<open>Comment text\<close> and \<open>EmitCode source\<close> are the tags of those names; \<open>Tag name attrs
  children\<close> is an element, whose attributes are \<open>None\<close> when \<open>attrs\<close> is falsy and
  otherwise the dictionary in insertion order; \<open>Arr\<close> is a plain array; \<open>Fun n\<close> is a
  function value that returns \<open>n\<close> when called.
\<close>

datatype 's node =
    Null
  | Str jsstr
  | CharRef jsstr jsstr
  | Comment jsstr
  | Raw jsstr
  | EmitCode jsstr
  | Tag jsstr "(jsstr \<times> 's attrval) list option" "'s node list"
  | Arr "'s node list"
  | Special 's
  | Fun "'s node"

section \<open>Rendering to HTML (render2.js)\<close>

datatype render_error =
    EmitCodeNotRenderable
  | UnexpectedItem

text \<open>\<open>content.replace(/--+/g, '')\<close>: every maximal run of two or more dashes goes.\<close>

function removeDashRuns :: "jsstr \<Rightarrow> jsstr" where
  "removeDashRuns [] = []"
| "removeDashRuns (c # cs) =
     (if c = ch CHR ''-'' \<and> cs \<noteq> [] \<and> hd cs = ch CHR ''-''
      then removeDashRuns (dropWhile (\<lambda>x. x = ch CHR ''-'') cs)
      else c # removeDashRuns cs)"
  by pat_completeness auto

termination
  by (relation "measure length") (auto simp: less_Suc_eq_le length_dropWhile_le)

text \<open>\<open>.replace(/-$/, '')\<close>: one dash at the very end goes.\<close>

definition removeFinalDash :: "jsstr \<Rightarrow> jsstr" where
  "removeFinalDash s = (if s \<noteq> [] \<and> last s = ch CHR ''-'' then butlast s else s)"

definition sanitizeComment :: "jsstr \<Rightarrow> jsstr" where
  "sanitizeComment content = removeFinalDash (removeDashRuns content)"

definition properCaseTagName :: "jsstr \<Rightarrow> jsstr" where
  "properCaseTagName name = toLowerCase name"

text \<open>
  \<open>attributeValuePartToQuotedStringPart\<close> returns nothing (\<open>undefined\<close>) for a value that
  is neither a string nor a character reference.
\<close>

fun attributeValuePartToQuotedStringPart :: "'s attrval \<Rightarrow> jsstr option" where
  "attributeValuePartToQuotedStringPart (AStr v) =
     Some (replaceAll (ch CHR ''&'') (js ''&amp;'') (replaceAll (ch CHR 0x22) (js ''&quot;'') v))"
| "attributeValuePartToQuotedStringPart (ACharRef html str) = Some html"
| "attributeValuePartToQuotedStringPart _ = None"

text \<open>\<open>result += x\<close> where \<open>x\<close> may be \<open>undefined\<close>.\<close>

definition plusString :: "jsstr option \<Rightarrow> jsstr" where
  "plusString x = (case x of None \<Rightarrow> js ''undefined'' | Some s \<Rightarrow> s)"

fun attributeValueToQuotedString :: "'s attrval \<Rightarrow> jsstr" where
  "attributeValueToQuotedString (AArr vs) =
     js [CHR 0x22] @ concat (map (\<lambda>v. plusString (attributeValuePartToQuotedStringPart v)) vs)
       @ js [CHR 0x22]"
| "attributeValueToQuotedString v =
     js [CHR 0x22] @ plusString (attributeValuePartToQuotedStringPart v) @ js [CHR 0x22]"

definition attrsToHTML :: "(jsstr \<times> 's attrval) list option \<Rightarrow> jsstr" where
  "attrsToHTML attrs =
     (case attrs of
        None \<Rightarrow> []
      | Some kvs \<Rightarrow>
          concat (map (\<lambda>(k, v). js '' '' @ k @ js ''='' @ attributeValueToQuotedString v) kvs))"

text \<open>
  The children are rendered from left to right and the first exception ends the
  rendering.
\<close>

fun concatResults :: "(render_error + jsstr) list \<Rightarrow> render_error + jsstr" where
  "concatResults [] = Inr []"
| "concatResults (Inl e # rs) = Inl e"
| "concatResults (Inr s # rs) =
     (case concatResults rs of Inl e \<Rightarrow> Inl e | Inr t \<Rightarrow> Inr (s @ t))"

text \<open>
  \<open>toHTML\<close>, branch by branch.  A \<open>Special\<close> is an object that is no tag, array, string
  or function: the last branch throws.
\<close>

text \<open>
  Modelled from the spec: the node kind \<open>Raw\<close> is declared outside the sources; it holds
  literal pre-rendered HTML, so rendering \<open>Raw html\<close> gives \<open>html\<close>.
\<close>

fun toHTML :: "'s node \<Rightarrow> render_error + jsstr" where
  "toHTML (CharRef html str) = Inr html"
| "toHTML (Comment c) = Inr (js ''<!--'' @ sanitizeComment c @ js ''-->'')"
| "toHTML (EmitCode c) = Inl EmitCodeNotRenderable"
| "toHTML (Tag tagName attrs children) =
     (case concatResults (map toHTML children) of
        Inl e \<Rightarrow> Inl e
      | Inr body \<Rightarrow>
          Inr (js ''<'' @ properCaseTagName tagName @ attrsToHTML attrs @ js ''>'' @ body
               @ js ''</'' @ properCaseTagName tagName @ js ''>''))"
| "toHTML (Arr children) = concatResults (map toHTML children)"
| "toHTML (Str s) =
     Inr (replaceAll (ch CHR ''<'') (js ''&lt;'') (replaceAll (ch CHR ''&'') (js ''&amp;'') s))"
| "toHTML (Fun n) = toHTML n"
| "toHTML Null = Inr []"
| "toHTML (Raw html) = Inr html"
| "toHTML (Special s) = Inl UnexpectedItem"

text \<open>The escaping of one character of a text node, in the words of the description.\<close>

definition escapeTextChar :: "nat \<Rightarrow> jsstr" where
  "escapeTextChar c =
     (if c = ch CHR ''&'' then js ''&amp;''
      else if c = ch CHR ''<'' then js ''&lt;''
      else [c])"

section \<open>The optimizer (\<open>optimize\<close>)\<close>

text \<open>
  \<open>pushRawHTML\<close>: the HTML is added to a \<open>Raw\<close> that ends the array, or pushed as a new
  \<open>Raw\<close>.
\<close>

definition pushRawHTML :: "'s node list \<Rightarrow> jsstr \<Rightarrow> 's node list" where
  "pushRawHTML array html =
     (if array \<noteq> [] \<and> (case last array of Raw v \<Rightarrow> True | _ \<Rightarrow> False)
      then butlast array @ [Raw ((case last array of Raw v \<Rightarrow> v | _ \<Rightarrow> []) @ html)]
      else array @ [Raw html])"

definition isPureChars :: "jsstr \<Rightarrow> bool" where
  "isPureChars html = (ch CHR ''&'' \<notin> set html \<and> ch CHR ''<'' \<notin> set html)"

text \<open>
  The inner loop \<open>for (var j = 0; j < i; j++) pushRawHTML(result, HTML.toHTML(array[j]))\<close>
  over the elements already visited.
\<close>

fun stringifyParts :: "'s node list \<Rightarrow> 's node list \<Rightarrow> render_error + 's node list" where
  "stringifyParts result [] = Inr result"
| "stringifyParts result (x # xs) =
     (case toHTML x of
        Inl e \<Rightarrow> Inl e
      | Inr html \<Rightarrow> stringifyParts (pushRawHTML result html) xs)"

text \<open>
  The main loop of \<open>optimizeArrayParts\<close>. \<open>visited\<close> are the elements \<open>array[0..i-1]\<close>,
  the list argument the elements from \<open>array[i]\<close> on, and \<open>result\<close> is \<open>None\<close> while the
  variable \<open>result\<close> is \<open>null\<close>.  An exception of \<open>optimizePartsFunc\<close> or of \<open>toHTML\<close>
  ends the loop.
\<close>

fun optimizeArrayLoop ::
  "('s node \<Rightarrow> render_error + 's node option) \<Rightarrow> 's node list \<Rightarrow> 's node list \<Rightarrow>
   's node list option \<Rightarrow> render_error + 's node list option" where
  "optimizeArrayLoop optimizePartsFunc visited [] result = Inr result"
| "optimizeArrayLoop optimizePartsFunc visited (x # xs) result =
     (case optimizePartsFunc x of
        Inl e \<Rightarrow> Inl e
      | Inr (Some part) \<Rightarrow>
          (case result of
             None \<Rightarrow>
               (case stringifyParts [] visited of
                  Inl e \<Rightarrow> Inl e
                | Inr r \<Rightarrow> optimizeArrayLoop optimizePartsFunc (visited @ [x]) xs (Some (r @ [part])))
           | Some r \<Rightarrow> optimizeArrayLoop optimizePartsFunc (visited @ [x]) xs (Some (r @ [part])))
      | Inr None \<Rightarrow>
          (case result of
             None \<Rightarrow> optimizeArrayLoop optimizePartsFunc (visited @ [x]) xs None
           | Some r \<Rightarrow>
               (case toHTML x of
                  Inl e \<Rightarrow> Inl e
                | Inr html \<Rightarrow>
                    optimizeArrayLoop optimizePartsFunc (visited @ [x]) xs
                      (Some (pushRawHTML r html)))))"

text \<open>The clean-up loop replaces a \<open>Raw\<close> of pure character data by the string.\<close>

fun demoteRaw :: "'s node \<Rightarrow> 's node" where
  "demoteRaw (Raw v) = (if isPureChars v then Str v else Raw v)"
| "demoteRaw n = n"

definition optimizeArrayParts ::
  "'s node list \<Rightarrow> ('s node \<Rightarrow> render_error + 's node option) \<Rightarrow> bool \<Rightarrow>
   render_error + 's node list option" where
  "optimizeArrayParts array optimizePartsFunc forceOptimize =
     (case optimizeArrayLoop optimizePartsFunc [] array (if forceOptimize then Some [] else None) of
        Inl e \<Rightarrow> Inl e
      | Inr None \<Rightarrow> Inr None
      | Inr (Some result) \<Rightarrow> Inr (Some (map demoteRaw result)))"

text \<open>
  The loop applies the function it is given to elements of the array only; the recursion
  of \<open>optimizeParts\<close> through it is therefore well-founded.
\<close>

lemma optimizeArrayLoop_cong [fundef_cong]:
  "xs = ys \<Longrightarrow> b = b' \<Longrightarrow> r = r' \<Longrightarrow> (\<And>x. x \<in> set ys \<Longrightarrow> f x = g x) \<Longrightarrow>
   optimizeArrayLoop f b xs r = optimizeArrayLoop g b' ys r'"
proof (induction g b' ys r' arbitrary: xs b r rule: optimizeArrayLoop.induct)
  case (1 g b r)
  then show ?case by simp
next
  case (2 g b x xs r)
  then show ?case
    by (auto split: sum.splits option.splits)
qed

lemma optimizeArrayParts_cong [fundef_cong]:
  "xs = ys \<Longrightarrow> fo = fo' \<Longrightarrow> (\<And>x. x \<in> set ys \<Longrightarrow> f x = g x) \<Longrightarrow>
   optimizeArrayParts xs f fo = optimizeArrayParts ys g fo'"
  unfolding optimizeArrayParts_def
  using optimizeArrayLoop_cong [of xs ys "[]" "[]" _ _ f g] by simp

fun doesAttributeValueHaveSpecials :: "'s attrval \<Rightarrow> bool" where
  "doesAttributeValueHaveSpecials (ASpecial s) = True"
| "doesAttributeValueHaveSpecials AFun = True"
| "doesAttributeValueHaveSpecials (AArr vs) = list_ex doesAttributeValueHaveSpecials vs"
| "doesAttributeValueHaveSpecials _ = False"

text \<open>The loop over \<open>node.attrs\<close> that sets \<open>mustOptimize\<close>.\<close>

definition mustOptimize :: "(jsstr \<times> 's attrval) list option \<Rightarrow> bool" where
  "mustOptimize attrs =
     (case attrs of
        None \<Rightarrow> False
      | Some kvs \<Rightarrow> list_ex (\<lambda>(k, v). doesAttributeValueHaveSpecials v) kvs)"

text \<open>
  \<open>optimizeParts\<close> returns \<open>None\<close> for \<open>null\<close> (nothing special).  Its last branch
  takes every other node: \<open>EmitCode\<close>, \<open>Special\<close> and functions.
\<close>

text \<open>
  Modelled from the spec: the tag constructors \<open>HTML.getTag\<close> are outside the sources;
  a \<open>Tag\<close> has a name, attributes and children, and the new tag gets the name and the
  attributes of the old one and the new children.
\<close>

fun optimizeParts :: "'s node \<Rightarrow> render_error + 's node option" where
  "optimizeParts Null = Inr None"
| "optimizeParts (Str s) = Inr None"
| "optimizeParts (CharRef html str) = Inr None"
| "optimizeParts (Comment c) = Inr None"
| "optimizeParts (Raw html) = Inr None"
| "optimizeParts (Tag tagName attrs children) =
     (if tagName = js ''TEXTAREA'' then Inr (Some (Tag tagName attrs children))
      else
        (case optimizeArrayParts children optimizeParts (mustOptimize attrs) of
           Inl e \<Rightarrow> Inl e
         | Inr None \<Rightarrow> Inr None
         | Inr (Some newChildren) \<Rightarrow> Inr (Some (Tag tagName attrs newChildren))))"
| "optimizeParts (Arr array) =
     (case optimizeArrayParts array optimizeParts False of
        Inl e \<Rightarrow> Inl e
      | Inr None \<Rightarrow> Inr None
      | Inr (Some result) \<Rightarrow> Inr (Some (Arr result)))"
| "optimizeParts node = Inr (Some node)"

text \<open>
  \<open>optimize\<close>: a tree with nothing special is rendered as a whole, to a string when the
  HTML is pure character data and to a \<open>Raw\<close> otherwise.
\<close>

definition optimize :: "'s node \<Rightarrow> render_error + 's node" where
  "optimize tree =
     (case optimizeParts tree of
        Inl e \<Rightarrow> Inl e
      | Inr (Some optTree) \<Rightarrow> Inr optTree
      | Inr None \<Rightarrow>
          (case toHTML tree of
             Inl e \<Rightarrow> Inl e
           | Inr html \<Rightarrow> Inr (if isPureChars html then Str html else Raw html)))"

section \<open>Code generation (\<open>Spacebars.codeGen\<close>)\<close>

text \<open>The options object; \<open>isTemplate\<close> is the truth value of \<open>options.isTemplate\<close>.\<close>

record codeGenOptions =
  isTemplate :: bool

datatype 'e codegen_error =
    OptimizeFailed render_error
  | PassFailed 'e

text \<open>
  \<open>Spacebars.codeGen\<close>.  The specialization pass \<open>replaceSpecials\<close>, the serializer
  \<open>HTML.toJS\<close> and \<open>beautify\<close> build on code outside the sources and are parameters.
  The variable \<open>isTemplate\<close> is declared by the \<open>var\<close> statement further down in the
  function body: the declaration is hoisted, the assignment is not, so the variable is
  \<open>undefined\<close> (falsy) where \<open>if (isTemplate)\<close> reads it.
\<close>

definition codeGen ::
  "('s node \<Rightarrow> 'e + 's node) \<Rightarrow> ('s node \<Rightarrow> 'e + jsstr) \<Rightarrow> (jsstr \<Rightarrow> jsstr) \<Rightarrow>
   's node \<Rightarrow> codeGenOptions option \<Rightarrow> 'e codegen_error + jsstr" where
  "codeGen replaceSpecials toJS beautify parseTree options =
     (let isTemplate_hoisted = False in
      case (if isTemplate_hoisted
            then (case optimize parseTree of Inl e \<Rightarrow> Inl (OptimizeFailed e) | Inr t \<Rightarrow> Inr t)
            else Inr parseTree) of
        Inl e \<Rightarrow> Inl e
      | Inr tree \<Rightarrow>
          (case replaceSpecials tree of
             Inl e \<Rightarrow> Inl (PassFailed e)
           | Inr tree' \<Rightarrow>
               (let isTemplate_assigned =
                      (case options of None \<Rightarrow> False | Some opts \<Rightarrow> isTemplate opts);
                    code = js ''(function () { var self = this; '';
                    code = (if isTemplate_assigned
                            then code @ js ''var __content = self.__content, ''
                                   @ js ''__elseContent = self.__elseContent; ''
                            else code);
                    code = code @ js ''return ''
                in case toJS tree' of
                     Inl e \<Rightarrow> Inl (PassFailed e)
                   | Inr treeCode \<Rightarrow> Inr (beautify (code @ treeCode @ js ''; })'')))))"

text \<open>
  Trees without template tags, functions or dynamic attributes: the trees the description
  of the optimizer calls free of specials.
\<close>

fun specialFree :: "'s node \<Rightarrow> bool" where
  "specialFree (Special s) = False"
| "specialFree (Fun n) = False"
| "specialFree (Tag tagName attrs children) =
     (\<not> mustOptimize attrs \<and> list_all specialFree children)"
| "specialFree (Arr children) = list_all specialFree children"
| "specialFree n = True"

text \<open>
  Parse trees in which the optimizer finds nothing to keep: no template tag, function or
  dynamic attribute, no \<open>EmitCode\<close>, and no \<open>TEXTAREA\<close> element.
\<close>

fun plainTree :: "'s node \<Rightarrow> bool" where
  "plainTree (Special s) = False"
| "plainTree (Fun n) = False"
| "plainTree (EmitCode c) = False"
| "plainTree (Tag tagName attrs children) =
     (tagName \<noteq> js ''TEXTAREA'' \<and> \<not> mustOptimize attrs \<and> list_all plainTree children)"
| "plainTree (Arr children) = list_all plainTree children"
| "plainTree n = True"

text \<open>What the loop needs of the function it is given, on the elements it visits.\<close>

definition partsOK :: "('s node \<Rightarrow> render_error + 's node option) \<Rightarrow> 's node \<Rightarrow> bool" where
  "partsOK f x =
     (case f x of
        Inl e \<Rightarrow> False
      | Inr None \<Rightarrow> (case toHTML x of Inl e \<Rightarrow> False | Inr h \<Rightarrow> True)
      | Inr (Some p) \<Rightarrow> toHTML p = toHTML x)"

section \<open>The runtime: \<open>Spacebars.call\<close> and \<open>Spacebars.mustacheImpl\<close>\<close>

text \<open>
  Runtime values.  A function value is a name \<open>'f\<close>; what it does when called is given by
  \<open>app\<close> below.  \<open>VKw hash\<close> is an instance of \<open>Spacebars.kw\<close> with its \<open>hash\<close>, a
  dictionary in insertion order.  Numbers are kept as integers: their arithmetic plays no
  part here.
\<close>

datatype 'f val =
    VUndefined
  | VNull
  | VBool bool
  | VNum int
  | VStr jsstr
  | VObj "(jsstr \<times> 'f val) list"
  | VFun 'f
  | VKw "(jsstr \<times> 'f val) list"

fun isFunction :: "'f val \<Rightarrow> bool" where
  "isFunction (VFun f) = True"
| "isFunction v = False"

fun isKw :: "'f val \<Rightarrow> bool" where
  "isKw (VKw hash) = True"
| "isKw v = False"

text \<open>
  An exception is the \<open>Error\<close> that \<open>Spacebars.call\<close> throws itself (\<open>Can't call
  non-function\<close>), the one of \<open>Spacebars.attrMustache\<close> (\<open>Expected valid attribute name,
  '', null, or object\<close>), or one thrown by a function that was called.
\<close>

datatype ('f, 'e) call_error =
    CantCallNonFunction "'f val"
  | ExpectedAttributeName
  | Thrown 'e

text \<open>
  A call \<open>f(args)\<close> runs in a world \<open>'w\<close>, which it may change, and returns a value or
  throws: \<open>app f args w\<close> is the outcome and the world after the call.
\<close>

type_synonym ('f, 'e, 'w) app = "'f \<Rightarrow> 'f val list \<Rightarrow> 'w \<Rightarrow> ('e + 'f val) \<times> 'w"

text \<open>\<open>typeof arg === 'function' ? arg() : arg\<close>\<close>

definition callIfFunction ::
  "('f, 'e, 'w) app \<Rightarrow> 'f val \<Rightarrow> 'w \<Rightarrow> (('f, 'e) call_error + 'f val) \<times> 'w" where
  "callIfFunction app arg w =
     (case arg of
        VFun g \<Rightarrow> (case app g [] w of (Inl e, w') \<Rightarrow> (Inl (Thrown e), w') | (Inr v, w') \<Rightarrow> (Inr v, w'))
      | _ \<Rightarrow> (Inr arg, w))"

text \<open>The loop of \<open>Spacebars.call\<close> that fills \<open>newArgs\<close>, from left to right.\<close>

fun evalArgs ::
  "('f, 'e, 'w) app \<Rightarrow> 'f val list \<Rightarrow> 'w \<Rightarrow> (('f, 'e) call_error + 'f val list) \<times> 'w" where
  "evalArgs app [] w = (Inr [], w)"
| "evalArgs app (arg # args) w =
     (case callIfFunction app arg w of
        (Inl e, w') \<Rightarrow> (Inl e, w')
      | (Inr v, w') \<Rightarrow>
          (case evalArgs app args w' of
             (Inl e, w'') \<Rightarrow> (Inl e, w'')
           | (Inr vs, w'') \<Rightarrow> (Inr (v # vs), w'')))"

text \<open>\<open>Spacebars.call(value, args...)\<close>; \<open>args\<close> are the arguments after \<open>value\<close>.\<close>

definition Spacebars_call ::
  "('f, 'e, 'w) app \<Rightarrow> 'f val \<Rightarrow> 'f val list \<Rightarrow> 'w \<Rightarrow> (('f, 'e) call_error + 'f val) \<times> 'w" where
  "Spacebars_call app value args w =
     (case value of
        VFun f \<Rightarrow>
          (case evalArgs app args w of
             (Inl e, w') \<Rightarrow> (Inl e, w')
           | (Inr newArgs, w') \<Rightarrow>
               (case app f newArgs w' of
                  (Inl e, w'') \<Rightarrow> (Inl (Thrown e), w'')
                | (Inr r, w'') \<Rightarrow> (Inr r, w'')))
      | _ \<Rightarrow>
          (if args \<noteq> [] then (Inl (CantCallNonFunction value), w) else (Inr value, w)))"

text \<open>The loop of \<open>mustacheImpl\<close> over \<open>kw.hash\<close> that fills \<open>newHash\<close>.\<close>

fun evalHash ::
  "('f, 'e, 'w) app \<Rightarrow> (jsstr \<times> 'f val) list \<Rightarrow> 'w \<Rightarrow>
   (('f, 'e) call_error + (jsstr \<times> 'f val) list) \<times> 'w" where
  "evalHash app [] w = (Inr [], w)"
| "evalHash app ((k, v) # hash) w =
     (case callIfFunction app v w of
        (Inl e, w') \<Rightarrow> (Inl e, w')
      | (Inr v', w') \<Rightarrow>
          (case evalHash app hash w' of
             (Inl e, w'') \<Rightarrow> (Inl e, w'')
           | (Inr newHash, w'') \<Rightarrow> (Inr ((k, v') # newHash), w'')))"

text \<open>
  The first part of \<open>mustacheImpl\<close>: the arguments after \<open>value\<close> that are then handed to
  \<open>Spacebars.call\<close>.  \<open>args.length > 1\<close> says that there is an argument after \<open>value\<close>;
  \<open>Spacebars.kw()\<close> has the empty hash.
\<close>

definition mustacheImplArgs ::
  "('f, 'e, 'w) app \<Rightarrow> 'f val list \<Rightarrow> 'w \<Rightarrow> (('f, 'e) call_error + 'f val list) \<times> 'w" where
  "mustacheImplArgs app args w =
     (if args \<noteq> [] then
        (case last args of
           VKw hash \<Rightarrow>
             (case evalHash app hash w of
                (Inl e, w') \<Rightarrow> (Inl e, w')
              | (Inr newHash, w') \<Rightarrow> (Inr (butlast args @ [VKw newHash]), w'))
         | _ \<Rightarrow> (Inr (args @ [VKw []]), w))
      else (Inr args, w))"

definition mustacheImpl ::
  "('f, 'e, 'w) app \<Rightarrow> 'f val \<Rightarrow> 'f val list \<Rightarrow> 'w \<Rightarrow> (('f, 'e) call_error + 'f val) \<times> 'w" where
  "mustacheImpl app value args w =
     (case mustacheImplArgs app args w of
        (Inl e, w') \<Rightarrow> (Inl e, w')
      | (Inr args', w') \<Rightarrow> Spacebars_call app value args' w')"

text \<open>
  What \<open>Spacebars.mustache\<close> makes of the result of \<open>mustacheImpl\<close>.
  \<open>Handlebars.SafeString\<close> and the conversion \<open>String\<close> are outside the sources:
  \<open>safeString v\<close> is the text of \<open>v.toString()\<close> when \<open>v\<close> is a \<open>SafeString\<close>, and
  \<open>toStr\<close> is \<open>String\<close>.
\<close>

definition mustacheResult ::
  "('f val \<Rightarrow> jsstr option) \<Rightarrow> ('f val \<Rightarrow> jsstr) \<Rightarrow> 'f val \<Rightarrow> 's node" where
  "mustacheResult safeString toStr result =
     (case safeString result of
        Some text \<Rightarrow> Raw text
      | None \<Rightarrow>
          Str (toStr (case result of VNull \<Rightarrow> VStr [] | VUndefined \<Rightarrow> VStr [] | _ \<Rightarrow> result)))"

definition Spacebars_mustache ::
  "('f val \<Rightarrow> jsstr option) \<Rightarrow> ('f val \<Rightarrow> jsstr) \<Rightarrow> ('f, 'e, 'w) app \<Rightarrow> 'f val \<Rightarrow>
   'f val list \<Rightarrow> 'w \<Rightarrow> (('f, 'e) call_error + 's node) \<times> 'w" where
  "Spacebars_mustache safeString toStr app value args w =
     (case mustacheImpl app value args w of
        (Inl e, w') \<Rightarrow> (Inl e, w')
      | (Inr result, w') \<Rightarrow> (Inr (mustacheResult safeString toStr result), w'))"

text \<open>
  What \<open>Spacebars.attrMustache\<close> makes of the result; \<open>HTML.isValidAttributeName\<close> is
  outside the sources and a parameter.  Objects and instances of \<open>Spacebars.kw\<close> have the
  type \<open>object\<close>.
\<close>

definition attrMustacheResult ::
  "(jsstr \<Rightarrow> bool) \<Rightarrow> 'f val \<Rightarrow> ('f, 'e) call_error + 'f val" where
  "attrMustacheResult isValidAttributeName result =
     (case result of
        VNull \<Rightarrow> Inr VNull
      | VUndefined \<Rightarrow> Inr VNull
      | VStr text \<Rightarrow>
          if text = [] then Inr VNull
          else if isValidAttributeName text then Inr (VObj [(text, VStr [])])
          else Inl ExpectedAttributeName
      | VObj obj \<Rightarrow> Inr result
      | VKw hash \<Rightarrow> Inr result
      | _ \<Rightarrow> Inl ExpectedAttributeName)"

definition Spacebars_attrMustache ::
  "(jsstr \<Rightarrow> bool) \<Rightarrow> ('f, 'e, 'w) app \<Rightarrow> 'f val \<Rightarrow> 'f val list \<Rightarrow> 'w \<Rightarrow>
   (('f, 'e) call_error + 'f val) \<times> 'w" where
  "Spacebars_attrMustache isValidAttributeName app value args w =
     (case mustacheImpl app value args w of
        (Inl e, w') \<Rightarrow> (Inl e, w')
      | (Inr result, w') \<Rightarrow> (attrMustacheResult isValidAttributeName result, w'))"

text \<open>
  The evaluation of the arguments, in the words of the description: from left to right,
  an argument that is a function is called with no arguments and replaced by what it
  returns, any other argument is kept; the world is passed along.
\<close>

inductive evaluated ::
  "('f, 'e, 'w) app \<Rightarrow> 'f val list \<Rightarrow> 'w \<Rightarrow> 'f val list \<Rightarrow> 'w \<Rightarrow> bool" where
  evaluated_Nil: "evaluated app [] w [] w"
| evaluated_fun:
    "app g [] w = (Inr v, w') \<Longrightarrow> evaluated app args w' vs w'' \<Longrightarrow>
     evaluated app (VFun g # args) w (v # vs) w''"
| evaluated_other:
    "\<not> isFunction arg \<Longrightarrow> evaluated app args w vs w' \<Longrightarrow>
     evaluated app (arg # args) w (arg # vs) w'"

code_pred evaluated .

text \<open>
  An example world: the world is the list of the calls made so far;
  function 0 returns the number of its arguments, function 1 returns the string \<open>x\<close>,
  every other function throws.
\<close>

definition exampleApp :: "(nat, unit, (nat \<times> nat val list) list) app" where
  "exampleApp f args w =
     (if f = 0 then (Inr (VNum (int (length args))), w @ [(f, args)])
      else if f = 1 then (Inr (VStr (js ''x'')), w @ [(f, args)])
      else (Inl (), w @ [(f, args)]))"

section \<open>The stache-tag scanner (\<open>Spacebars.parseStacheTag\<close>)\<close>

subsection \<open>Regular expressions\<close>

text \<open>The class \<open>\s\<close> of JavaScript regular expressions.\<close>

definition isSpace :: "nat \<Rightarrow> bool" where
  "isSpace c \<longleftrightarrow>
     c \<in> {9, 10, 11, 12, 13, 32, 160, 5760, 8232, 8233, 8239, 8287, 12288, 65279}
     \<or> (8192 \<le> c \<and> c \<le> 8202)"

text \<open>The length of the match of \<open>\s*\<close>.\<close>

definition spaces :: "jsstr \<Rightarrow> nat" where
  "spaces s = length (takeWhile isSpace s)"

text \<open>
  A regular expression anchored with \<open>^\<close> is modelled by its matcher: the length of the
  match at the start of the string, or \<open>None\<close>.  \<open>startsWith p s\<close> says that \<open>s\<close> begins
  with \<open>p\<close>.
\<close>

definition startsWith :: "jsstr \<Rightarrow> jsstr \<Rightarrow> bool" where
  "startsWith p s = (take (length p) s = p)"

text \<open>The negative lookahead \<open>(?![{>!#/])\<close> that \<open>makeStacheTagStartRegex\<close> appends.\<close>

definition notSigilAhead :: "jsstr \<Rightarrow> bool" where
  "notSigilAhead s = (case s of [] \<Rightarrow> True | c # _ \<Rightarrow> c \<notin> set (js ''{>!#/''))"

text \<open>
  \<open>^\{\{\s*else(?=[\s}])\<close> with the flag \<open>i\<close>, which lets each letter of \<open>else\<close> match
  in upper case too.
\<close>

definition matchesIgnoreCase :: "jsstr \<Rightarrow> jsstr \<Rightarrow> bool" where
  "matchesIgnoreCase p s = (length s = length p \<and> toLowerCase s = p)"

definition starts_ELSE :: "jsstr \<Rightarrow> nat option" where
  "starts_ELSE s =
     (if startsWith (js ''{{'') s then
        (let n = 2 + spaces (drop 2 s); r = drop (n + 4) s in
         if matchesIgnoreCase (js ''else'') (take 4 (drop n s))
            \<and> r \<noteq> [] \<and> (isSpace (hd r) \<or> hd r = ch CHR ''}'') \<and> notSigilAhead r
         then Some (n + 4) else None)
      else None)"

text \<open>
  \<open>^\{\{\s*(?!\s)\<close> and \<open>^\{\{\{\s*(?!\s)\<close>: after the longest run of white space
  the lookahead \<open>(?!\s)\<close> holds, and after a shorter one it fails.
\<close>

definition startsOpen :: "jsstr \<Rightarrow> jsstr \<Rightarrow> nat option" where
  "startsOpen braces s =
     (if startsWith braces s then
        (let n = length braces + spaces (drop (length braces) s) in
         if notSigilAhead (drop n s) then Some n else None)
      else None)"

definition starts_DOUBLE :: "jsstr \<Rightarrow> nat option" where
  "starts_DOUBLE = startsOpen (js ''{{'')"

definition starts_TRIPLE :: "jsstr \<Rightarrow> nat option" where
  "starts_TRIPLE = startsOpen (js ''{{{'')"

text \<open>\<open>^\{\{\s*!\<close>\<close>

definition starts_COMMENT :: "jsstr \<Rightarrow> nat option" where
  "starts_COMMENT s =
     (if startsWith (js ''{{'') s then
        (let n = 2 + spaces (drop 2 s) in
         if startsWith (js ''!'') (drop n s) \<and> notSigilAhead (drop (n + 1) s)
         then Some (n + 1) else None)
      else None)"

text \<open>\<open>^\{\{\s*c\s*(?!\s)\<close> for the sigil \<open>c\<close> of an inclusion, a block or its end.\<close>

definition startsSigil :: "nat \<Rightarrow> jsstr \<Rightarrow> nat option" where
  "startsSigil c s =
     (if startsWith (js ''{{'') s then
        (let n = 2 + spaces (drop 2 s) in
         if startsWith [c] (drop n s) then
           (let m = n + 1 + spaces (drop (n + 1) s) in
            if notSigilAhead (drop m s) then Some m else None)
         else None)
      else None)"

definition starts_INCLUSION :: "jsstr \<Rightarrow> nat option" where
  "starts_INCLUSION = startsSigil (ch CHR ''>'')"

definition starts_BLOCKOPEN :: "jsstr \<Rightarrow> nat option" where
  "starts_BLOCKOPEN = startsSigil (ch CHR ''#'')"

definition starts_BLOCKCLOSE :: "jsstr \<Rightarrow> nat option" where
  "starts_BLOCKCLOSE = startsSigil (ch CHR ''/'')"

text \<open>\<open>^\s*\}\}\<close> and \<open>^\s*\}\}\}\<close>\<close>

definition endsWith :: "jsstr \<Rightarrow> jsstr \<Rightarrow> nat option" where
  "endsWith braces s =
     (if startsWith braces (drop (spaces s) s) then Some (spaces s + length braces) else None)"

definition ends_DOUBLE :: "jsstr \<Rightarrow> nat option" where
  "ends_DOUBLE = endsWith (js ''}}'')"

definition ends_TRIPLE :: "jsstr \<Rightarrow> nat option" where
  "ends_TRIPLE = endsWith (js ''}}}'')"

text \<open>\<open>^[\.\/]+\<close>\<close>

definition re_dots :: "jsstr \<Rightarrow> nat option" where
  "re_dots s =
     (let n = length (takeWhile (\<lambda>c. c = ch CHR ''.'' \<or> c = ch CHR ''/'') s) in
      if n = 0 then None else Some n)"

text \<open>\<open>^\[\<close>, \<open>^[\.\/]\<close> and the test \<open>^[\.\[]\<close>: one character of a class.\<close>

definition re_oneOf :: "string \<Rightarrow> jsstr \<Rightarrow> nat option" where
  "re_oneOf cs s = (case s of [] \<Rightarrow> None | c # _ \<Rightarrow> if c \<in> set (js cs) then Some 1 else None)"

text \<open>\<open>^[\s\S]*?\]\<close>: everything up to the first \<open>]\<close>, and that bracket.\<close>

definition re_toBracket :: "jsstr \<Rightarrow> nat option" where
  "re_toBracket s =
     (let n = length (takeWhile (\<lambda>c. c \<noteq> ch CHR '']'') s) in
      if n < length s then Some (n + 1) else None)"

text \<open>\<open>^[\s\S]*?\}\}\<close>: everything up to the first \<open>}}\<close>, and those braces.\<close>

fun re_toBraces :: "jsstr \<Rightarrow> nat option" where
  "re_toBraces [] = None"
| "re_toBraces (c # s) =
     (if startsWith (js ''}}'') (c # s) then Some 2
      else (case re_toBraces s of None \<Rightarrow> None | Some n \<Rightarrow> Some (n + 1)))"

text \<open>\<open>^\s*\<close>, \<open>^\s*=\<close> (a test), \<open>^\s*=\s*\<close> and \<open>^(?=[\s}])\<close>\<close>

definition re_spaces :: "jsstr \<Rightarrow> nat option" where
  "re_spaces s = Some (spaces s)"

definition test_equals :: "jsstr \<Rightarrow> bool" where
  "test_equals s = startsWith (js ''='') (drop (spaces s) s)"

definition re_equals :: "jsstr \<Rightarrow> nat option" where
  "re_equals s =
     (if test_equals s then Some (spaces s + 1 + spaces (drop (spaces s + 1) s)) else None)"

definition re_spaceOrBraceAhead :: "jsstr \<Rightarrow> nat option" where
  "re_spaceOrBraceAhead s =
     (case s of [] \<Rightarrow> None | c # _ \<Rightarrow> if isSpace c \<or> c = ch CHR ''}'' then Some 0 else None)"

text \<open>\<open>s.split('/')\<close>\<close>

fun split :: "nat \<Rightarrow> jsstr \<Rightarrow> jsstr list" where
  "split c [] = [[]]"
| "split c (x # xs) =
     (if x = c then [] # split c xs
      else (case split c xs of [] \<Rightarrow> [[x]] | y # ys \<Rightarrow> (x # y) # ys))"

subsection \<open>The scanner's state, errors and tokens\<close>

text \<open>The variables \<open>str\<close> and \<open>pos\<close> of \<open>parseStacheTag\<close>.\<close>

record pstate =
  str :: jsstr
  pos :: nat

text \<open>
  An \<open>Error\<close> thrown by \<open>error(msg)\<close> is kept as the message and the position \<open>pos\<close>
  from which \<open>prettyOffset\<close> computes the line and offset that follow it in the full
  message; the source name of the \<open>options\<close>, which is added to every message alike, is
  left out.  \<open>JSON.parse\<close> throws a \<open>SyntaxError\<close>.
\<close>

datatype parse_error =
    Error jsstr nat
  | SyntaxError

text \<open>An argument \<open>[type, value]\<close>, or \<open>[type, value, key]\<close> for a keyword argument.
  The value of a \<open>NUMBER\<close> is \<open>Number(text)\<close>, negated if the flag is set.\<close>

datatype argval =
    PATH "jsstr list"
  | NUMBER bool jsstr
  | BOOLEAN bool
  | NULL
  | STRING jsstr

datatype arg = Arg argval "jsstr option"

datatype tagtype = ELSE | DOUBLE | TRIPLE | COMMENT | INCLUSION | BLOCKOPEN | BLOCKCLOSE

record tag =
  tagType :: tagtype
  tagPath :: "jsstr list option"
  tagArgs :: "arg list option"
  tagValue :: "jsstr option"
  charPos :: nat
  charLength :: nat

text \<open>
  A token of the JavaScript tokenizer \<open>JSLexer\<close>: its type and its text.  The tokenizer
  and \<open>JSON.parse\<close> are outside the sources; the scanner takes them as the parameters
  \<open>lexer\<close> (the token that starts at a position of the input) and \<open>JSON_parse\<close>
  (\<open>None\<close> when it throws).
\<close>

record token =
  tokType :: jsstr
  tokText :: jsstr

type_synonym lexer = "jsstr \<Rightarrow> nat \<Rightarrow> token"

definition advance :: "nat \<Rightarrow> pstate \<Rightarrow> pstate" where
  "advance amount st = \<lparr>str = drop amount (str st), pos = pos st + amount\<rparr>"

definition run :: "(jsstr \<Rightarrow> nat option) \<Rightarrow> pstate \<Rightarrow> jsstr option \<times> pstate" where
  "run regex st =
     (case regex (str st) of
        None \<Rightarrow> (None, st)
      | Some n \<Rightarrow> (Some (take n (str st)), advance n st))"

definition error :: "jsstr \<Rightarrow> pstate \<Rightarrow> parse_error" where
  "error msg st = Error msg (pos st)"

definition expected :: "jsstr \<Rightarrow> pstate \<Rightarrow> parse_error" where
  "expected what st =
     error (js ''Expected '' @ what @ js '', found '' @ [ch CHR 0x22] @ take 5 (str st) @ [ch CHR 0x22]) st"

definition scanToken :: "lexer \<Rightarrow> jsstr \<Rightarrow> pstate \<Rightarrow> token" where
  "scanToken lexer inputString st = lexer inputString (pos st)"

definition scanIdentifier ::
  "lexer \<Rightarrow> jsstr \<Rightarrow> bool \<Rightarrow> pstate \<Rightarrow> parse_error + jsstr \<times> pstate" where
  "scanIdentifier lexer inputString isFirstInPath st =
     (let tok = scanToken lexer inputString st in
      if \<not> (tokType tok = js ''IDENTIFIER'' \<or> tokType tok = js ''KEYWORD'' \<or>
             (\<not> isFirstInPath \<and> (tokType tok = js ''BOOLEAN'' \<or> tokType tok = js ''NULL'')))
      then Inl (expected (js ''IDENTIFIER'') st)
      else Inr (tokText tok, advance (length (tokText tok)) st))"

subsection \<open>Paths\<close>

datatype ('a, 'b) loop = Break 'a | Continue 'b

text \<open>
  The callback of \<open>_.each(dots.split('/'), ...)\<close> in \<open>scanPath\<close>, applied to the clauses
  from the one with the given index on; \<open>st\<close> is the state after the dots were consumed.
\<close>

fun eachDotClause ::
  "pstate \<Rightarrow> bool \<Rightarrow> jsstr \<Rightarrow> jsstr list \<Rightarrow> parse_error + jsstr" where
  "eachDotClause st isFirst ancestorStr [] = Inr ancestorStr"
| "eachDotClause st isFirst ancestorStr (dotClause # rest) =
     (if isFirst \<and> dotClause \<noteq> js ''.'' \<and> dotClause \<noteq> js ''..''
      then Inl (expected (js ''`.`, `..`, `./` or `../`'') st)
      else if \<not> isFirst \<and> dotClause \<noteq> js ''..''
      then Inl (expected (js ''`..` or `../`'') st)
      else eachDotClause st False
             (if dotClause = js ''..'' then ancestorStr @ js ''.'' else ancestorStr) rest)"

text \<open>
  The first part of \<open>scanPath\<close>, which handles the leading dots: it returns (\<open>Break\<close>) the
  path, or goes on (\<open>Continue\<close>) to the loop with the segments so far.
\<close>

definition scanPathDots :: "pstate \<Rightarrow> parse_error + (jsstr list \<times> pstate, jsstr list \<times> pstate) loop" where
  "scanPathDots st =
     (case run re_dots st of
        (None, _) \<Rightarrow> Inr (Continue ([], st))
      | (Some dots, st') \<Rightarrow>
          (let endsWithSlash = (dots \<noteq> [] \<and> last dots = ch CHR ''/'');
               dots' = (if endsWithSlash then butlast dots else dots)
           in case eachDotClause st' True (js ''.'') (split (ch CHR ''/'') dots') of
                Inl e \<Rightarrow> Inl e
              | Inr ancestorStr \<Rightarrow>
                  (if \<not> endsWithSlash then Inr (Break ([ancestorStr], st'))
                   else Inr (Continue ([ancestorStr], st')))))"

text \<open>
  The body of the loop \<open>while (true)\<close> of \<open>scanPath\<close> up to the separator: a segment is
  scanned and pushed.
\<close>

definition scanSegment ::
  "lexer \<Rightarrow> jsstr \<Rightarrow> jsstr list \<Rightarrow> pstate \<Rightarrow> parse_error + jsstr list \<times> pstate" where
  "scanSegment lexer inputString segments st =
     (case run (re_oneOf ''['') st of
        (Some _, st1) \<Rightarrow>
          (case run re_toBracket st1 of
             (None, _) \<Rightarrow> Inl (error (js ''Unterminated path segment'') st1)
           | (Some seg0, st2) \<Rightarrow>
               (let seg = butlast seg0 in
                if seg = [] \<and> segments = []
                then Inl (error (js ''Path can't start with empty string'') st2)
                else Inr (segments @ [seg], st2)))
      | (None, _) \<Rightarrow>
          (case scanIdentifier lexer inputString (segments = []) st of
             Inl e \<Rightarrow> Inl e
           | Inr (ident, st1) \<Rightarrow>
               (if ident = js ''this'' \<and> segments = []
                then Inr (segments @ [js ''.''], st1)
                else Inr (segments @ [ident], st1))))"

text \<open>One round of the loop: without a separator after the segment the loop ends.\<close>

definition scanPathSegment ::
  "lexer \<Rightarrow> jsstr \<Rightarrow> jsstr list \<Rightarrow> pstate \<Rightarrow>
   parse_error + (jsstr list \<times> pstate, jsstr list \<times> pstate) loop" where
  "scanPathSegment lexer inputString segments st =
     (case scanSegment lexer inputString segments st of
        Inl e \<Rightarrow> Inl e
      | Inr (segments', st') \<Rightarrow>
          (case run (re_oneOf ''./'') st' of
             (None, _) \<Rightarrow> Inr (Break (segments', st'))
           | (Some sep, st'') \<Rightarrow> Inr (Continue (segments', st''))))"

lemma run_length: "run regex st = (r, st') \<Longrightarrow> length (str st') \<le> length (str st)"
  by (auto simp: run_def advance_def split: option.splits)

lemma run_oneOf_shorter:
  "run (re_oneOf cs) st = (Some x, st') \<Longrightarrow> length (str st') < length (str st)"
  by (auto simp: run_def advance_def re_oneOf_def split: option.splits list.splits if_splits)

lemma scanIdentifier_length:
  "scanIdentifier lexer inputString b st = Inr (x, st') \<Longrightarrow> length (str st') \<le> length (str st)"
  by (auto simp: scanIdentifier_def advance_def Let_def split: if_splits)

lemma scanSegment_length:
  assumes "scanSegment lexer inputString segments st = Inr (segments', st')"
  shows "length (str st') \<le> length (str st)"
proof (cases "run (re_oneOf ''['') st")
  case (Pair r st1)
  show ?thesis
  proof (cases r)
    case None
    with assms Pair obtain ident where
      "scanIdentifier lexer inputString (segments = []) st = Inr (ident, st')"
      by (auto simp: scanSegment_def split: sum.splits if_splits)
    then show ?thesis by (rule scanIdentifier_length)
  next
    case (Some x)
    with assms Pair obtain seg0 where "run re_toBracket st1 = (Some seg0, st')"
      by (auto simp: scanSegment_def Let_def split: prod.splits option.splits if_splits)
    from run_length [OF this] run_length [OF Pair] show ?thesis by simp
  qed
qed

lemma scanPathSegment_Continue:
  assumes "scanPathSegment lexer inputString segments st = Inr (Continue (segments', st'))"
  shows "length (str st') < length (str st)"
proof -
  from assms obtain segs st1 x where
    a: "scanSegment lexer inputString segments st = Inr (segs, st1)" and
    b: "run (re_oneOf ''./'') st1 = (Some x, st')"
    unfolding scanPathSegment_def
    by (auto split: prod.splits option.splits sum.splits)
  from run_oneOf_shorter [OF b] scanSegment_length [OF a] show ?thesis by simp
qed

lemma scanPathSegment_Break:
  assumes "scanPathSegment lexer inputString segments st = Inr (Break (segments', st'))"
  shows "length (str st') \<le> length (str st)"
proof -
  from assms have "scanSegment lexer inputString segments st = Inr (segments', st')"
    unfolding scanPathSegment_def
    by (auto split: prod.splits option.splits sum.splits)
  then show ?thesis by (rule scanSegment_length)
qed

function scanPathLoop ::
  "lexer \<Rightarrow> jsstr \<Rightarrow> jsstr list \<Rightarrow> pstate \<Rightarrow> parse_error + jsstr list \<times> pstate" where
  "scanPathLoop lexer inputString segments st =
     (case scanPathSegment lexer inputString segments st of
        Inl e \<Rightarrow> Inl e
      | Inr (Break r) \<Rightarrow> Inr r
      | Inr (Continue (segments', st')) \<Rightarrow> scanPathLoop lexer inputString segments' st')"
  by pat_completeness auto

termination
  by (relation "measure (\<lambda>(lexer, inputString, segments, st). length (str st))")
     (auto dest: scanPathSegment_Continue)

declare scanPathLoop.simps [simp del]

definition scanPath :: "lexer \<Rightarrow> jsstr \<Rightarrow> pstate \<Rightarrow> parse_error + jsstr list \<times> pstate" where
  "scanPath lexer inputString st =
     (case scanPathDots st of
        Inl e \<Rightarrow> Inl e
      | Inr (Break r) \<Rightarrow> Inr r
      | Inr (Continue (segments, st')) \<Rightarrow> scanPathLoop lexer inputString segments st')"

lemma scanPathLoop_length:
  "scanPathLoop lexer inputString segments st = Inr (path, st') \<Longrightarrow>
   length (str st') \<le> length (str st)"
proof (induction lexer inputString segments st rule: scanPathLoop.induct)
  case (1 lexer inputString segments st)
  show ?case
  proof (cases "scanPathSegment lexer inputString segments st")
    case (Inl e)
    with "1.prems" show ?thesis by (simp add: scanPathLoop.simps)
  next
    case (Inr l)
    show ?thesis
    proof (cases l)
      case (Break r)
      with Inr "1.prems" have "scanPathSegment lexer inputString segments st = Inr (Break (path, st'))"
        by (simp add: scanPathLoop.simps [of lexer inputString segments st])
      then show ?thesis by (rule scanPathSegment_Break)
    next
      case (Continue c)
      obtain segments' st1 where c: "c = (segments', st1)" by (cases c)
      from Inr Continue c "1.prems" have "scanPathLoop lexer inputString segments' st1 = Inr (path, st')"
        by (simp add: scanPathLoop.simps [of lexer inputString segments st])
      from "1.IH" [OF Inr Continue c [symmetric] this]
        scanPathSegment_Continue [of lexer inputString segments st segments' st1] Inr Continue c
      show ?thesis by simp
    qed
  qed
qed

lemma scanPathDots_length:
  assumes "scanPathDots st = Inr l"
  shows "length (str (snd (case l of Break r \<Rightarrow> r | Continue r \<Rightarrow> r))) \<le> length (str st)"
proof (cases "run re_dots st")
  case (Pair r st1)
  note len = run_length [OF Pair]
  show ?thesis
  proof (cases r)
    case None
    with assms Pair show ?thesis by (auto simp: scanPathDots_def)
  next
    case (Some dots)
    with assms Pair len show ?thesis
      by (cases l) (auto simp: scanPathDots_def Let_def split: sum.splits if_splits)
  qed
qed

lemma scanPath_length:
  assumes "scanPath lexer inputString st = Inr (path, st')"
  shows "length (str st') \<le> length (str st)"
proof (cases "scanPathDots st")
  case (Inl e)
  with assms show ?thesis by (simp add: scanPath_def)
next
  case (Inr l)
  note dots = scanPathDots_length [OF Inr]
  show ?thesis
  proof (cases l)
    case (Break r)
    with assms Inr dots show ?thesis by (simp add: scanPath_def)
  next
    case (Continue c)
    obtain segments st1 where c: "c = (segments, st1)" by (cases c)
    with assms Inr Continue have "scanPathLoop lexer inputString segments st1 = Inr (path, st')"
      by (simp add: scanPath_def)
    from scanPathLoop_length [OF this] dots Continue c show ?thesis by simp
  qed
qed

subsection \<open>Arguments\<close>

text \<open>
  The decoding of a string literal in \<open>scanArg\<close>: \<open>text.slice(1, -1)\<close> drops the first
  and the last character; the class of the replacement is \<open>[\r\n\u000A\u000D\u2028\u2029]\<close>.
\<close>

definition requote :: "jsstr \<Rightarrow> jsstr" where
  "requote text =
     (if take 1 text = [ch CHR 0x27] then [ch CHR 0x22] @ butlast (tl text) @ [ch CHR 0x22]
      else text)"

definition replaceLineContinuations :: "jsstr \<Rightarrow> jsstr" where
  "replaceLineContinuations text =
     map (\<lambda>c. if c \<in> {13, 10, 8232, 8233} then ch CHR ''n'' else c) text"

function scanArg ::
  "lexer \<Rightarrow> (jsstr \<Rightarrow> jsstr option) \<Rightarrow> jsstr \<Rightarrow> bool \<Rightarrow> pstate \<Rightarrow> parse_error + arg \<times> pstate" where
  "scanArg lexer JSON_parse inputString notKeyword st =
     (let tok = scanToken lexer inputString st;
          tokTy = tokType tok;
          text = tokText tok
      in
      if re_oneOf ''.['' (str st) \<noteq> None \<and> tokTy \<noteq> js ''NUMBER'' then
        (case scanPath lexer inputString st of
           Inl e \<Rightarrow> Inl e
         | Inr (path, st') \<Rightarrow> Inr (Arg (PATH path) None, st'))
      else if tokTy = js ''PUNCTUATION'' \<and> text = js ''-'' then
        (let st1 = advance (length text) st;
             numberTok = scanToken lexer inputString st1
         in
         if tokType numberTok \<noteq> js ''NUMBER''
         then Inl (expected (js ''identifier, number, string, boolean, or null'') st1)
         else Inr (Arg (NUMBER True (tokText numberTok)) None,
                   advance (length (tokText numberTok)) st1))
      else if tokTy = js ''BOOLEAN'' then
        Inr (Arg (BOOLEAN (text = js ''true'')) None, advance (length text) st)
      else if tokTy = js ''NULL'' then
        Inr (Arg NULL None, advance (length text) st)
      else if tokTy = js ''NUMBER'' then
        Inr (Arg (NUMBER False text) None, advance (length text) st)
      else if tokTy = js ''STRING'' then
        (case JSON_parse (replaceLineContinuations (requote text)) of
           None \<Rightarrow> Inl SyntaxError
         | Some v \<Rightarrow> Inr (Arg (STRING v) None, advance (length text) st))
      else if tokTy = js ''IDENTIFIER'' \<or> tokTy = js ''KEYWORD'' then
        (if \<not> notKeyword \<and> test_equals (drop (length text) (str st)) then
           (let st1 = advance (length text) st;
                st2 = snd (run re_equals st1)
            in
            case scanArg lexer JSON_parse inputString True st2 of
              Inl e \<Rightarrow> Inl e
            | Inr (Arg v k, st3) \<Rightarrow> Inr (Arg v (Some text), st3))
         else
           (case scanPath lexer inputString st of
              Inl e \<Rightarrow> Inl e
            | Inr (path, st') \<Rightarrow> Inr (Arg (PATH path) None, st')))
      else Inl (expected (js ''identifier, number, string, boolean, or null'') st))"
  by pat_completeness auto

termination
  by (relation "measure (\<lambda>(lexer, JSON_parse, inputString, notKeyword, st). if notKeyword then 0 else 1)")
     auto

declare scanArg.simps [simp del]

lemma advance_length: "length (str (advance n st)) \<le> length (str st)"
  by (simp add: advance_def)

lemma scanArg_length_notKeyword:
  assumes "scanArg lexer JSON_parse inputString True st = Inr (a, st')"
  shows "length (str st') \<le> length (str st)"
proof -
  note le = order_trans [OF advance_length advance_length]
  from assms show ?thesis
    apply (subst (asm) scanArg.simps)
    apply (simp add: Let_def split: if_splits sum.splits prod.splits option.splits)
    apply (auto simp: advance_length le dest: scanPath_length)
    done
qed

lemma scanArg_length:
  assumes "scanArg lexer JSON_parse inputString notKeyword st = Inr (a, st')"
  shows "length (str st') \<le> length (str st)"
proof (cases notKeyword)
  case True
  with assms show ?thesis by (simp add: scanArg_length_notKeyword)
next
  case False
  let ?text = "tokText (scanToken lexer inputString st)"
  have kw: "length (str st') \<le> length (str st)"
    if "scanArg lexer JSON_parse inputString True (snd (run re_equals (advance (length ?text) st)))
          = Inr (b, st')" for b
  proof -
    have "length (str (snd (run re_equals (advance (length ?text) st))))
        \<le> length (str (advance (length ?text) st))"
      using run_length [of re_equals "advance (length ?text) st"]
      by (cases "run re_equals (advance (length ?text) st)") simp
    with scanArg_length_notKeyword [OF that] advance_length [of "length ?text" st]
    show ?thesis by linarith
  qed
  note le = order_trans [OF advance_length advance_length]
  from assms False show ?thesis
    apply (subst (asm) scanArg.simps)
    apply (simp add: Let_def split: if_splits sum.splits prod.splits option.splits arg.splits)
    apply (auto simp: advance_length le dest: scanPath_length kw)
    done
qed

subsection \<open>Tags\<close>

text \<open>
  The test for the end of the tag at the head of the loop over the arguments: the loop
  ends (\<open>Break\<close>) behind the closing braces, or an argument follows (\<open>Continue\<close>).
\<close>

definition scanTagEnd :: "tagtype \<Rightarrow> pstate \<Rightarrow> parse_error + (pstate, unit) loop" where
  "scanTagEnd type st =
     (if type = TRIPLE then
        (case run ends_TRIPLE st of
           (Some _, st') \<Rightarrow> Inr (Break st')
         | (None, _) \<Rightarrow>
             if take 1 (str st) = js ''}'' then Inl (expected (js ''`}}}`'') st)
             else Inr (Continue ()))
      else
        (case run ends_DOUBLE st of
           (Some _, st') \<Rightarrow> Inr (Break st')
         | (None, _) \<Rightarrow>
             if take 1 (str st) = js ''}'' then Inl (expected (js ''`}}`'') st)
             else Inr (Continue ())))"

text \<open>One round of the loop \<open>while (true)\<close> over the arguments.\<close>

definition scanArgsStep ::
  "lexer \<Rightarrow> (jsstr \<Rightarrow> jsstr option) \<Rightarrow> jsstr \<Rightarrow> tagtype \<Rightarrow> arg list \<Rightarrow> pstate \<Rightarrow>
   parse_error + (arg list \<times> pstate, arg list \<times> pstate) loop" where
  "scanArgsStep lexer JSON_parse inputString type args st =
     (let st1 = snd (run re_spaces st) in
      case scanTagEnd type st1 of
        Inl e \<Rightarrow> Inl e
      | Inr (Break st2) \<Rightarrow> Inr (Break (args, st2))
      | Inr (Continue _) \<Rightarrow>
          (case scanArg lexer JSON_parse inputString False st1 of
             Inl e \<Rightarrow> Inl e
           | Inr (arg, st2) \<Rightarrow>
               (case run re_spaceOrBraceAhead st2 of
                  (Some r, st3) \<Rightarrow>
                    if r \<noteq> [] then Inl (expected (js ''space'') st3)
                    else Inr (Continue (args @ [arg], st3))
                | (None, _) \<Rightarrow> Inl (expected (js ''space'') st2))))"

text \<open>
  What decreases in the loop: the characters left behind the white space, and nothing
  when a closing brace comes next (the loop then ends or throws).
\<close>

definition argsMeasure :: "jsstr \<Rightarrow> nat" where
  "argsMeasure s =
     (let r = dropWhile isSpace s in if take 1 r = js ''}'' then 0 else 1 + length r)"

lemma run_re_spaces: "str (snd (run re_spaces st)) = dropWhile isSpace (str st)"
  by (simp add: run_def re_spaces_def advance_def spaces_def dropWhile_eq_drop)

lemma scanTagEnd_Continue:
  "scanTagEnd type st = Inr (Continue u) \<Longrightarrow> take 1 (str st) \<noteq> js ''}''"
  by (auto simp: scanTagEnd_def split: if_splits prod.splits option.splits)

lemma run_spaceOrBraceAhead:
  assumes "run re_spaceOrBraceAhead st = (Some r, st')"
  shows "str st' = str st \<and> str st \<noteq> [] \<and> (isSpace (hd (str st)) \<or> take 1 (str st) = js ''}'')"
  using assms
  by (cases "str st")
     (auto simp: run_def re_spaceOrBraceAhead_def advance_def js_def split: if_splits)

lemma not_isSpace_brace: "\<not> isSpace (ch CHR ''}'')"
  by (simp add: isSpace_def ch_def)

lemma argsMeasure_after:
  assumes "s \<noteq> []" and "isSpace (hd s) \<or> take 1 s = js ''}''"
    and "length s \<le> n"
  shows "argsMeasure s < 1 + n"
proof (cases s)
  case Nil
  with assms show ?thesis by simp
next
  case (Cons c cs)
  show ?thesis
  proof (cases "isSpace c")
    case True
    have "length (dropWhile isSpace cs) \<le> length cs"
      by (rule length_dropWhile_le)
    with Cons True assms(3) show ?thesis
      by (simp add: argsMeasure_def Let_def)
  next
    case False
    with Cons assms(2) have "take 1 s = js ''}''" by simp
    with Cons False show ?thesis
      by (simp add: argsMeasure_def)
  qed
qed

lemma scanArgsStep_Continue:
  assumes "scanArgsStep lexer JSON_parse inputString type args st = Inr (Continue (args', st'))"
  shows "argsMeasure (str st') < argsMeasure (str st)"
proof -
  let ?st1 = "snd (run re_spaces st)"
  from assms obtain u arg st2 r where
    e: "scanTagEnd type ?st1 = Inr (Continue u)" and
    a: "scanArg lexer JSON_parse inputString False ?st1 = Inr (arg, st2)" and
    l: "run re_spaceOrBraceAhead st2 = (Some r, st')"
    unfolding scanArgsStep_def Let_def
    by (auto split: sum.splits loop.splits prod.splits option.splits if_splits)
  from scanTagEnd_Continue [OF e] have "argsMeasure (str st) = 1 + length (str ?st1)"
    by (simp add: argsMeasure_def run_re_spaces)
  moreover from run_spaceOrBraceAhead [OF l] scanArg_length [OF a]
  have "argsMeasure (str st') < 1 + length (str ?st1)"
    by (intro argsMeasure_after) auto
  ultimately show ?thesis by simp
qed

function scanArgs ::
  "lexer \<Rightarrow> (jsstr \<Rightarrow> jsstr option) \<Rightarrow> jsstr \<Rightarrow> tagtype \<Rightarrow> arg list \<Rightarrow> pstate \<Rightarrow>
   parse_error + arg list \<times> pstate" where
  "scanArgs lexer JSON_parse inputString type args st =
     (case scanArgsStep lexer JSON_parse inputString type args st of
        Inl e \<Rightarrow> Inl e
      | Inr (Break r) \<Rightarrow> Inr r
      | Inr (Continue (args', st')) \<Rightarrow> scanArgs lexer JSON_parse inputString type args' st')"
  by pat_completeness auto

termination
  by (relation "measure (\<lambda>(lexer, JSON_parse, inputString, type, args, st). argsMeasure (str st))")
     (auto dest: scanArgsStep_Continue)

declare scanArgs.simps [simp del]

text \<open>
  The dispatch on the start of the tag: \<open>ELSE\<close> is tried first.
\<close>

definition scanTagType :: "pstate \<Rightarrow> parse_error + tagtype \<times> pstate" where
  "scanTagType st =
     (case run starts_ELSE st of (Some _, st') \<Rightarrow> Inr (ELSE, st') | (None, _) \<Rightarrow>
      case run starts_DOUBLE st of (Some _, st') \<Rightarrow> Inr (DOUBLE, st') | (None, _) \<Rightarrow>
      case run starts_TRIPLE st of (Some _, st') \<Rightarrow> Inr (TRIPLE, st') | (None, _) \<Rightarrow>
      case run starts_COMMENT st of (Some _, st') \<Rightarrow> Inr (COMMENT, st') | (None, _) \<Rightarrow>
      case run starts_INCLUSION st of (Some _, st') \<Rightarrow> Inr (INCLUSION, st') | (None, _) \<Rightarrow>
      case run starts_BLOCKOPEN st of (Some _, st') \<Rightarrow> Inr (BLOCKOPEN, st') | (None, _) \<Rightarrow>
      case run starts_BLOCKCLOSE st of (Some _, st') \<Rightarrow> Inr (BLOCKCLOSE, st') | (None, _) \<Rightarrow>
      Inl (error (js ''Unknown stache tag starting with '' @ [ch CHR 0x22] @ take 5 (str st)
                  @ [ch CHR 0x22]) st))"

text \<open>The tag \<open>{ type: type }\<close> and the part of \<open>parseStacheTag\<close> that fills it.\<close>

definition newTag :: "tagtype \<Rightarrow> tag" where
  "newTag type =
     \<lparr>tagType = type, tagPath = None, tagArgs = None, tagValue = None,
      charPos = 0, charLength = 0\<rparr>"

definition scanTagBody ::
  "lexer \<Rightarrow> (jsstr \<Rightarrow> jsstr option) \<Rightarrow> jsstr \<Rightarrow> tagtype \<Rightarrow> pstate \<Rightarrow>
   parse_error + tag \<times> pstate" where
  "scanTagBody lexer JSON_parse inputString type st =
     (if type = COMMENT then
        (case run re_toBraces st of
           (None, _) \<Rightarrow> Inl (error (js ''Unclosed comment'') st)
         | (Some result, st') \<Rightarrow>
             Inr ((newTag type)\<lparr>tagValue := Some (take (length result - 2) result)\<rparr>, st'))
      else if type = BLOCKCLOSE then
        (case scanPath lexer inputString st of
           Inl e \<Rightarrow> Inl e
         | Inr (path, st') \<Rightarrow>
             (case run ends_DOUBLE st' of
                (None, _) \<Rightarrow> Inl (expected (js ''`}}`'') st')
              | (Some _, st'') \<Rightarrow> Inr ((newTag type)\<lparr>tagPath := Some path\<rparr>, st'')))
      else if type = ELSE then
        (case run ends_DOUBLE st of
           (None, _) \<Rightarrow> Inl (expected (js ''`}}`'') st)
         | (Some _, st') \<Rightarrow> Inr (newTag type, st'))
      else
        (case scanPath lexer inputString st of
           Inl e \<Rightarrow> Inl e
         | Inr (path, st') \<Rightarrow>
             (case scanArgs lexer JSON_parse inputString type [] st' of
                Inl e \<Rightarrow> Inl e
              | Inr (args, st'') \<Rightarrow>
                  Inr ((newTag type)\<lparr>tagPath := Some path, tagArgs := Some args\<rparr>, st''))))"

text \<open>An argument is positional when the array has length 2: it has no key.\<close>

fun isPositional :: "arg \<Rightarrow> bool" where
  "isPositional (Arg v k) = (k = None)"

definition numPosArgs :: "arg list \<Rightarrow> nat" where
  "numPosArgs args = length (filter isPositional args)"

text \<open>\<open>checkTag\<close> returns the error it throws, if any.\<close>

definition checkTag :: "tag \<Rightarrow> pstate \<Rightarrow> parse_error option" where
  "checkTag tag st =
     (if tagType tag = INCLUSION \<and> numPosArgs (case tagArgs tag of None \<Rightarrow> [] | Some args \<Rightarrow> args) > 1
      then Some (error (js ''Only one positional argument is allowed here'') st)
      else None)"

text \<open>
  The tag as it is assembled before \<open>checkTag\<close>, with the state of the scanner.
\<close>

definition assembleTag ::
  "lexer \<Rightarrow> (jsstr \<Rightarrow> jsstr option) \<Rightarrow> jsstr \<Rightarrow> nat \<Rightarrow> parse_error + tag \<times> pstate" where
  "assembleTag lexer JSON_parse inputString pos0 =
     (case scanTagType \<lparr>str = drop pos0 inputString, pos = pos0\<rparr> of
        Inl e \<Rightarrow> Inl e
      | Inr (type, st) \<Rightarrow> scanTagBody lexer JSON_parse inputString type st)"

definition parseStacheTag ::
  "lexer \<Rightarrow> (jsstr \<Rightarrow> jsstr option) \<Rightarrow> jsstr \<Rightarrow> nat \<Rightarrow> parse_error + tag" where
  "parseStacheTag lexer JSON_parse inputString pos0 =
     (case assembleTag lexer JSON_parse inputString pos0 of
        Inl e \<Rightarrow> Inl e
      | Inr (tag, st) \<Rightarrow>
          (case checkTag tag st of
             Some e \<Rightarrow> Inl e
           | None \<Rightarrow> Inr (tag\<lparr>charPos := pos0, charLength := pos st - pos0\<rparr>)))"

subsection \<open>A tokenizer for the examples\<close>

text \<open>
  A small tokenizer and a small \<open>JSON.parse\<close> for the examples: identifiers of ASCII
  letters, digits, \<open>_\<close> and \<open>$\<close> (with \<open>true\<close>, \<open>false\<close>, \<open>null\<close> and \<open>this\<close> told
  apart), decimal numbers, quoted strings without escapes, and single characters of
  punctuation.
\<close>

definition isIdentStart :: "nat \<Rightarrow> bool" where
  "isIdentStart c \<longleftrightarrow> (65 \<le> c \<and> c \<le> 90) \<or> (97 \<le> c \<and> c \<le> 122) \<or> c = ch CHR ''_'' \<or> c = ch CHR ''$''"

definition isDigit :: "nat \<Rightarrow> bool" where
  "isDigit c \<longleftrightarrow> 48 \<le> c \<and> c \<le> 57"

definition exampleLexer :: lexer where
  "exampleLexer inputString p =
     (case drop p inputString of
        [] \<Rightarrow> \<lparr>tokType = js ''EOF'', tokText = []\<rparr>
      | c # cs \<Rightarrow>
          if isIdentStart c then
            (let text = c # takeWhile (\<lambda>x. isIdentStart x \<or> isDigit x) cs in
             \<lparr>tokType =
                (if text = js ''true'' \<or> text = js ''false'' then js ''BOOLEAN''
                 else if text = js ''null'' then js ''NULL''
                 else if text = js ''this'' then js ''KEYWORD''
                 else js ''IDENTIFIER''),
              tokText = text\<rparr>)
          else if isDigit c then
            \<lparr>tokType = js ''NUMBER'', tokText = c # takeWhile isDigit cs\<rparr>
          else if (c = ch CHR 0x22 \<or> c = ch CHR 0x27) \<and> c \<in> set cs then
            \<lparr>tokType = js ''STRING'', tokText = c # takeWhile (\<lambda>x. x \<noteq> c) cs @ [c]\<rparr>
          else \<lparr>tokType = js ''PUNCTUATION'', tokText = [c]\<rparr>)"

definition exampleJSON_parse :: "jsstr \<Rightarrow> jsstr option" where
  "exampleJSON_parse text =
     (if 2 \<le> length text \<and> hd text = ch CHR 0x22 \<and> last text = ch CHR 0x22
         \<and> list_all (\<lambda>c. c \<noteq> ch CHR 0x22 \<and> c \<noteq> 92 \<and> 32 \<le> c) (butlast (tl text))
      then Some (butlast (tl text)) else None)"

section \<open>The template parser (\<open>Spacebars.parse\<close>)\<close>

text \<open>
  The object that \<open>getSpecialTag\<close> returns and the HTML parser wraps in a \<open>Special\<close>: the
  tag without \<open>charPos\<close> and \<open>charLength\<close>, and for a block with its \<open>content\<close> and
  \<open>elseContent\<close>.
\<close>

datatype stache =
  Stache (stType: tagtype) (stPath: "jsstr list option") (stArgs: "arg list option")
    (stValue: "jsstr option") (stContent: "stache node option")
    (stElseContent: "stache node option")

text \<open>
  Modelled from the spec: the constants \<open>HTML.TEMPLATE_TAG_POSITION\<close> and
  \<open>HTML.TEXTMODE\<close> are outside the sources.  \<open>getSpecialTag\<close> tells \<open>IN_RCDATA\<close> from
  the other positions and passes on the text mode \<open>RCDATA\<close> or \<open>null\<close>.
\<close>

datatype position = ELEMENT | IN_START_TAG | IN_ATTRIBUTE | IN_RCDATA | IN_RAWTEXT

datatype textmode = RCDATA

text \<open>
  Exceptions: an \<open>Error\<close> of \<open>parseStacheTag\<close>, a \<open>scanner.fatal(msg)\<close>, or the
  \<open>TypeError\<close> of \<open>join\<close> on a missing path.  The message of the fatal error for a block
  closed under another name is \<open>'Expected tag to close ' + blockName + ', found ' + +
  blockName2\<close>, where the second \<open>+\<close> converts the name to a number (\<open>NaN\<close> for a name
  that is no numeral); the error is kept with the two names.
\<close>

datatype parser_error =
    StacheError parse_error
  | Fatal jsstr
  | FatalCloseMismatch jsstr jsstr
  | TypeError

text \<open>
  \<open>HTML.parseFragment\<close> is outside the sources.  The calls on the scanner inside a block,
  with the options \<open>{getSpecialTag, shouldStop: isAtBlockCloseOrElse, textMode}\<close>, are the
  parameter \<open>parseFragment\<close>: for a text mode, the input and the position of the scanner
  it returns the fragment and the new position, or throws.
\<close>

type_synonym fragmentParser =
  "textmode option \<Rightarrow> jsstr \<Rightarrow> nat \<Rightarrow> parser_error + stache node \<times> nat"

text \<open>\<open>path.join(',')\<close>\<close>

fun joinComma :: "jsstr list \<Rightarrow> jsstr" where
  "joinComma [] = []"
| "joinComma [x] = x"
| "joinComma (x # y # ys) = x @ js '','' @ joinComma (y # ys)"

fun typeName :: "tagtype \<Rightarrow> jsstr" where
  "typeName ELSE = js ''ELSE''"
| "typeName DOUBLE = js ''DOUBLE''"
| "typeName TRIPLE = js ''TRIPLE''"
| "typeName COMMENT = js ''COMMENT''"
| "typeName INCLUSION = js ''INCLUSION''"
| "typeName BLOCKOPEN = js ''BLOCKOPEN''"
| "typeName BLOCKCLOSE = js ''BLOCKCLOSE''"

text \<open>
  The end of the block branch of \<open>getSpecialTag\<close> (the test of \<open>stache2.type\<close>):
  \<open>scannerPos\<close> is the position of the tag \<open>stache2\<close>.
\<close>

definition closeBlock ::
  "jsstr \<Rightarrow> stache \<Rightarrow> tag \<Rightarrow> nat \<Rightarrow> parser_error + stache option \<times> nat" where
  "closeBlock blockName stache stache2 scannerPos =
     (if tagType stache2 = BLOCKCLOSE then
        (case tagPath stache2 of
           None \<Rightarrow> Inl TypeError
         | Some path2 \<Rightarrow>
             (let blockName2 = joinComma path2 in
              if blockName \<noteq> blockName2 then Inl (FatalCloseMismatch blockName blockName2)
              else Inr (Some stache, scannerPos + charLength stache2)))
      else Inl (Fatal (js ''Expected tag to close '' @ blockName @ js '', found ''
                       @ typeName (tagType stache2))))"

text \<open>
  The block branch of \<open>getSpecialTag\<close>; \<open>scannerPos\<close> is the position behind the opening
  tag.
\<close>

definition parseBlock ::
  "lexer \<Rightarrow> (jsstr \<Rightarrow> jsstr option) \<Rightarrow> fragmentParser \<Rightarrow> jsstr \<Rightarrow> stache \<Rightarrow> nat \<Rightarrow> position \<Rightarrow>
   parser_error + stache option \<times> nat" where
  "parseBlock lexer JSON_parse parseFragment input stache scannerPos position =
     (case stPath stache of
        None \<Rightarrow> Inl TypeError
      | Some path \<Rightarrow>
          (let blockName = joinComma path;
               textMode = (if position = IN_RCDATA then Some RCDATA else None)
           in
           case parseFragment textMode input scannerPos of
             Inl e \<Rightarrow> Inl e
           | Inr (content, pos2) \<Rightarrow>
               (let stache = (case stache of Stache t p a v c e \<Rightarrow> Stache t p a v (Some content) e)
                in
                if \<not> startsWith (js ''{{'') (drop pos2 input)
                then Inl (Fatal (js ''Expected {{else}} or block close for '' @ blockName))
                else
                  (case parseStacheTag lexer JSON_parse input pos2 of
                     Inl e \<Rightarrow> Inl (StacheError e)
                   | Inr stache2 \<Rightarrow>
                       if tagType stache2 = ELSE then
                         (let pos3 = pos2 + charLength stache2 in
                          case parseFragment textMode input pos3 of
                            Inl e \<Rightarrow> Inl e
                          | Inr (elseContent, pos4) \<Rightarrow>
                              (let stache =
                                     (case stache of Stache t p a v c e \<Rightarrow>
                                        Stache t p a v c (Some elseContent))
                               in
                               if \<not> startsWith (js ''{{'') (drop pos4 input)
                               then Inl (Fatal (js ''Expected block close for '' @ blockName))
                               else
                                 (case parseStacheTag lexer JSON_parse input pos4 of
                                    Inl e \<Rightarrow> Inl (StacheError e)
                                  | Inr stache2' \<Rightarrow> closeBlock blockName stache stache2' pos4)))
                       else closeBlock blockName stache stache2 pos2))))"

text \<open>
  \<open>getSpecialTag(scanner, position)\<close>: the result is the tag or \<open>None\<close> for \<open>null\<close>, with
  the new position of the scanner.
\<close>

definition getSpecialTag ::
  "lexer \<Rightarrow> (jsstr \<Rightarrow> jsstr option) \<Rightarrow> fragmentParser \<Rightarrow> jsstr \<Rightarrow> nat \<Rightarrow> position \<Rightarrow>
   parser_error + stache option \<times> nat" where
  "getSpecialTag lexer JSON_parse parseFragment input scannerPos position =
     (if \<not> startsWith (js ''{{'') (drop scannerPos input) then Inr (None, scannerPos)
      else
        (case parseStacheTag lexer JSON_parse input scannerPos of
           Inl e \<Rightarrow> Inl (StacheError e)
         | Inr tag \<Rightarrow>
             (let args = (case tagArgs tag of Some [] \<Rightarrow> None | a \<Rightarrow> a) in
              if tagType tag = ELSE then Inl (Fatal (js ''Found unexpected {{else}}}''))
              else if tagType tag = BLOCKCLOSE
              then Inl (Fatal (js ''Found unexpected closing stache tag''))
              else
                (let pos1 = scannerPos + charLength tag;
                     stache = Stache (tagType tag) (tagPath tag) args (tagValue tag) None None
                 in
                 if tagType tag = COMMENT then Inr (None, pos1)
                 else if tagType tag = BLOCKOPEN
                 then parseBlock lexer JSON_parse parseFragment input stache pos1 position
                 else Inr (Some stache, pos1)))))"

text \<open>The test \<open>/^\{\{\s*(\/|else\b)/\<close> and \<open>isAtBlockCloseOrElse\<close>.\<close>

definition isWordChar :: "nat \<Rightarrow> bool" where
  "isWordChar c \<longleftrightarrow>
     (48 \<le> c \<and> c \<le> 57) \<or> (65 \<le> c \<and> c \<le> 90) \<or> (97 \<le> c \<and> c \<le> 122) \<or> c = ch CHR ''_''"

definition test_closeOrElse :: "jsstr \<Rightarrow> bool" where
  "test_closeOrElse rest =
     (startsWith (js ''{{'') rest \<and>
      (let r = drop (2 + spaces (drop 2 rest)) rest in
       startsWith (js ''/'') r \<or>
       (startsWith (js ''else'') r \<and> (case drop 4 r of [] \<Rightarrow> True | c # _ \<Rightarrow> \<not> isWordChar c))))"

definition isAtBlockCloseOrElse ::
  "lexer \<Rightarrow> (jsstr \<Rightarrow> jsstr option) \<Rightarrow> jsstr \<Rightarrow> nat \<Rightarrow> parser_error + bool" where
  "isAtBlockCloseOrElse lexer JSON_parse input scannerPos =
     (let rest = drop scannerPos input in
      if startsWith (js ''{{'') rest \<and> test_closeOrElse rest then
        (case parseStacheTag lexer JSON_parse input scannerPos of
           Inl e \<Rightarrow> Inl (StacheError e)
         | Inr tag \<Rightarrow> Inr (tagType tag = BLOCKCLOSE \<or> tagType tag = ELSE))
      else Inr False)"

text \<open>
  \<open>Spacebars.parse\<close> calls \<open>HTML.parseFragment\<close> on the input with the callback
  \<open>getSpecialTag\<close> alone; that call is the parameter \<open>parseTop\<close>, which is given the
  callback (as a function of the position of the scanner and the position in the HTML)
  and the input.
\<close>

type_synonym topParser =
  "(nat \<Rightarrow> position \<Rightarrow> parser_error + stache option \<times> nat) \<Rightarrow> jsstr \<Rightarrow> parser_error + stache node"

definition Spacebars_parse ::
  "topParser \<Rightarrow> lexer \<Rightarrow> (jsstr \<Rightarrow> jsstr option) \<Rightarrow> fragmentParser \<Rightarrow> jsstr \<Rightarrow>
   parser_error + stache node" where
  "Spacebars_parse parseTop lexer JSON_parse parseFragment input =
     parseTop (getSpecialTag lexer JSON_parse parseFragment input) input"

text \<open>
  What is assumed of the HTML parser where a claim speaks of \<open>Spacebars.parse\<close> as a
  whole: at the start of an input that begins with \<open>{{\<close> it asks the callback, in element
  position, and an exception of the callback ends the parse; called where
  \<open>shouldStop\<close> holds, it returns at once and leaves the scanner where it is.
\<close>

definition asksCallbackFirst :: "topParser \<Rightarrow> bool" where
  "asksCallbackFirst parseTop \<longleftrightarrow>
     (\<forall>callback input e. startsWith (js ''{{'') input \<and> callback 0 ELEMENT = Inl e \<longrightarrow>
        parseTop callback input = Inl e)"

definition stopsWhereAsked :: "lexer \<Rightarrow> (jsstr \<Rightarrow> jsstr option) \<Rightarrow> fragmentParser \<Rightarrow> bool" where
  "stopsWhereAsked lexer JSON_parse parseFragment \<longleftrightarrow>
     (\<forall>textMode input p. isAtBlockCloseOrElse lexer JSON_parse input p = Inr True \<longrightarrow>
        (\<exists>content. parseFragment textMode input p = Inr (content, p)))"

text \<open>An HTML parser for the examples: it asks the callback once, and stops at once.\<close>

definition exampleTop :: topParser where
  "exampleTop callback input =
     (case callback 0 ELEMENT of
        Inl e \<Rightarrow> Inl e
      | Inr (None, p) \<Rightarrow> Inr (Str input)
      | Inr (Some stache, p) \<Rightarrow> Inr (Special stache))"

definition exampleFragment :: fragmentParser where
  "exampleFragment textMode input p = Inr (Null, p)"

section \<open>Predicates and descriptions used in the properties\<close>

text \<open>Whether an exception is the one that \<open>checkTag\<close> throws.\<close>

fun isOnlyOnePositional :: "parse_error \<Rightarrow> bool" where
  "isOnlyOnePositional (Error msg p) = (msg = js ''Only one positional argument is allowed here'')"
| "isOnlyOnePositional SyntaxError = False"

text \<open>
  The decoding of a string literal, in the words of the description: single quotes around
  the literal become double quotes, then each of the characters CR, LF, U+2028 and U+2029
  becomes the letter \<open>n\<close>, then the text is parsed as JSON.
\<close>

definition swapOuterQuotes :: "jsstr \<Rightarrow> jsstr" where
  "swapOuterQuotes text =
     (if 2 \<le> length text \<and> hd text = ch CHR 0x27 \<and> last text = ch CHR 0x27
      then [ch CHR 0x22] @ butlast (tl text) @ [ch CHR 0x22]
      else text)"

definition lineTerminatorsToN :: "jsstr \<Rightarrow> jsstr" where
  "lineTerminatorsToN text =
     replaceAll 0x2029 (js ''n'') (replaceAll 0x2028 (js ''n'')
       (replaceAll 0x0A (js ''n'') (replaceAll 0x0D (js ''n'') text)))"

definition decodeStringLiteral :: "(jsstr \<Rightarrow> jsstr option) \<Rightarrow> jsstr \<Rightarrow> jsstr option" where
  "decodeStringLiteral JSON_parse text = JSON_parse (lineTerminatorsToN (swapOuterQuotes text))"

text \<open>The tag of a block.\<close>

definition isBlockOpen :: "stache \<Rightarrow> bool" where
  "isBlockOpen s = (stType s = BLOCKOPEN)"

section \<open>Rendering of strings\<close>

lemma replaceAll_absent: "c \<notin> set s \<Longrightarrow> replaceAll c r s = s"
  by (induction s) (auto simp: replaceAll_def)

lemma replaceAll_Nil [simp]: "replaceAll c r [] = []"
  by (simp add: replaceAll_def)

lemma replaceAll_append: "replaceAll c r (s @ t) = replaceAll c r s @ replaceAll c r t"
  by (simp add: replaceAll_def)

lemma replaceAll_Cons: "replaceAll c r (x # s) = (if x = c then r else [x]) @ replaceAll c r s"
  by (simp add: replaceAll_def)

lemma escape_two_passes:
  "replaceAll (ch CHR ''<'') (js ''&lt;'') (replaceAll (ch CHR ''&'') (js ''&amp;'') s)
     = concat (map escapeTextChar s)"
proof (induction s)
  case Nil
  show ?case by simp
next
  case (Cons x s)
  have amp: "replaceAll (ch CHR ''<'') (js ''&lt;'') (js ''&amp;'') = js ''&amp;''"
    by (rule replaceAll_absent) (simp add: js_def ch_def)
  show ?case
    using Cons.IH
    by (simp add: replaceAll_Cons replaceAll_append amp escapeTextChar_def)
qed

text \<open>
  C10.  \<open>toHTML\<close> renders a string node character by character: \<open>&\<close> becomes \<open>&amp;\<close>,
  \<open><\<close> becomes \<open>&lt;\<close>, every other character (so \<open>>\<close> and both quotes) stays; a string
  with neither \<open>&\<close> nor \<open><\<close> is returned as it is.
\<close>

theorem toHTML_string_escapes:
  "toHTML (Str s) = Inr (concat (map escapeTextChar s)) \<and>
   (\<forall>c. c \<noteq> ch CHR ''&'' \<and> c \<noteq> ch CHR ''<'' \<longrightarrow> escapeTextChar c = [c]) \<and>
   escapeTextChar (ch CHR ''&'') = js ''&amp;'' \<and>
   escapeTextChar (ch CHR ''<'') = js ''&lt;'' \<and>
   (ch CHR ''&'' \<notin> set s \<and> ch CHR ''<'' \<notin> set s \<longrightarrow> toHTML (Str s) = Inr s)"
proof -
  have a: "toHTML (Str s) = Inr (concat (map escapeTextChar s))"
    by (simp add: escape_two_passes)
  have b: "ch CHR ''&'' \<notin> set s \<and> ch CHR ''<'' \<notin> set s \<longrightarrow> toHTML (Str s) = Inr s"
    by (simp add: replaceAll_absent)
  have c: "escapeTextChar (ch CHR ''&'') = js ''&amp;''"
    by (simp add: escapeTextChar_def)
  have d: "escapeTextChar (ch CHR ''<'') = js ''&lt;''"
    by (simp add: escapeTextChar_def ch_def)
  have e: "\<forall>c. c \<noteq> ch CHR ''&'' \<and> c \<noteq> ch CHR ''<'' \<longrightarrow> escapeTextChar c = [c]"
    by (simp add: escapeTextChar_def)
  from a b c d e show ?thesis by blast
qed

theorem toHTML_string_escapes_witness:
  "toHTML (Str (js ''a>b'') :: unit node) = Inr (js ''a>b'') \<and>
   escapeTextChar (ch CHR ''>'') = js ''>'' \<and>
   escapeTextChar (ch CHR 0x22) = [ch CHR 0x22] \<and>
   escapeTextChar (ch CHR 0x27) = [ch CHR 0x27]"
proof -
  have h: "ch CHR ''&'' \<notin> set (js ''a>b'') \<and> ch CHR ''<'' \<notin> set (js ''a>b'')"
    by (simp add: js_def ch_def)
  have g: "\<And>c. c \<noteq> ch CHR ''&'' \<and> c \<noteq> ch CHR ''<'' \<Longrightarrow> escapeTextChar c = [c]"
    using toHTML_string_escapes [of "js ''a>b''"] by blast
  have 1: "toHTML (Str (js ''a>b'') :: unit node) = Inr (js ''a>b'')"
    using toHTML_string_escapes [of "js ''a>b''"] h by blast
  have 2: "escapeTextChar (ch CHR ''>'') = js ''>''"
    using g [of "ch CHR ''>''"] by (simp add: js_def ch_def)
  have 3: "escapeTextChar (ch CHR 0x22) = [ch CHR 0x22]"
    using g [of "ch CHR 0x22"] by (simp add: ch_def)
  have 4: "escapeTextChar (ch CHR 0x27) = [ch CHR 0x27]"
    using g [of "ch CHR 0x27"] by (simp add: ch_def)
  from 1 2 3 4 show ?thesis by blast
qed

section \<open>The optimizer keeps the rendering\<close>

lemma concatResults_append:
  "concatResults (xs @ ys) =
     (case concatResults xs of
        Inl e \<Rightarrow> Inl e
      | Inr s \<Rightarrow> (case concatResults ys of Inl e \<Rightarrow> Inl e | Inr t \<Rightarrow> Inr (s @ t)))"
  by (induction xs rule: concatResults.induct) (auto split: sum.splits)

lemma toHTML_pushRawHTML:
  "concatResults (map toHTML (pushRawHTML r html)) =
     (case concatResults (map toHTML r) of Inl e \<Rightarrow> Inl e | Inr s \<Rightarrow> Inr (s @ html))"
proof (cases "r \<noteq> [] \<and> (case last r of Raw v \<Rightarrow> True | _ \<Rightarrow> False)")
  case True
  then obtain v where l: "last r = Raw v" and ne: "r \<noteq> []"
    by (auto split: node.splits)
  have r: "r = butlast r @ [Raw v]"
    using l ne by (metis append_butlast_last_id)
  have "concatResults (map toHTML r) =
      (case concatResults (map toHTML (butlast r)) of Inl e \<Rightarrow> Inl e | Inr s \<Rightarrow> Inr (s @ v))"
    by (subst r) (simp add: concatResults_append split: sum.splits)
  moreover have "pushRawHTML r html = butlast r @ [Raw (v @ html)]"
    using True l by (simp add: pushRawHTML_def)
  ultimately show ?thesis
    by (simp add: concatResults_append split: sum.splits)
next
  case False
  then have "pushRawHTML r html = r @ [Raw html]"
    by (auto simp: pushRawHTML_def)
  then show ?thesis
    by (simp add: concatResults_append split: sum.splits)
qed

lemma toHTML_demoteRaw: "toHTML (demoteRaw n) = toHTML n"
  by (cases n) (auto simp: isPureChars_def replaceAll_absent)

lemma toHTML_map_demoteRaw: "map toHTML (map demoteRaw r) = map toHTML r"
  by (simp add: toHTML_demoteRaw)

lemma stringifyParts_ok:
  "\<forall>x \<in> set xs. \<exists>h. toHTML x = Inr h \<Longrightarrow>
   \<exists>r'. stringifyParts r xs = Inr r' \<and>
     concatResults (map toHTML r') =
       (case concatResults (map toHTML r) of
          Inl e \<Rightarrow> Inl e
        | Inr s \<Rightarrow> (case concatResults (map toHTML xs) of Inl e \<Rightarrow> Inl e | Inr t \<Rightarrow> Inr (s @ t)))"
proof (induction xs arbitrary: r)
  case Nil
  then show ?case by (simp split: sum.splits)
next
  case (Cons x xs)
  then obtain h where h: "toHTML x = Inr h" by auto
  from Cons.prems have "\<forall>x \<in> set xs. \<exists>h. toHTML x = Inr h" by simp
  from Cons.IH [OF this, of "pushRawHTML r h"] obtain r' where
    r': "stringifyParts (pushRawHTML r h) xs = Inr r'"
    "concatResults (map toHTML r') =
       (case concatResults (map toHTML (pushRawHTML r h)) of
          Inl e \<Rightarrow> Inl e
        | Inr s \<Rightarrow> (case concatResults (map toHTML xs) of Inl e \<Rightarrow> Inl e | Inr t \<Rightarrow> Inr (s @ t)))"
    by blast
  show ?case
    using h r' by (simp add: toHTML_pushRawHTML split: sum.splits)
qed

lemma concatResults_all_ok:
  "\<forall>x \<in> set xs. \<exists>h. f x = Inr h \<Longrightarrow> \<exists>s. concatResults (map f xs) = Inr s"
  by (induction xs) auto

lemma optimizeArrayLoop_ok:
  assumes "\<forall>x \<in> set xs. partsOK f x"
    and "case r of
           None \<Rightarrow> \<forall>x \<in> set visited. \<exists>h. toHTML x = Inr h
         | Some l \<Rightarrow> concatResults (map toHTML l) = concatResults (map toHTML visited)"
  shows "\<exists>res. optimizeArrayLoop f visited xs r = Inr res \<and>
           (case res of
              None \<Rightarrow> r = None \<and> (\<forall>x \<in> set (visited @ xs). \<exists>h. toHTML x = Inr h)
            | Some l \<Rightarrow> concatResults (map toHTML l) = concatResults (map toHTML (visited @ xs)))"
  using assms
proof (induction xs arbitrary: visited r)
  case Nil
  then show ?case by (cases r) auto
next
  case (Cons x xs)
  from Cons.prems(1) have ok: "partsOK f x" and rest: "\<forall>x \<in> set xs. partsOK f x"
    by simp_all
  from ok obtain part where fx: "f x = Inr part"
    by (auto simp: partsOK_def split: sum.splits)
  show ?case
  proof (cases part)
    case None
    with ok fx obtain h where h: "toHTML x = Inr h"
      by (auto simp: partsOK_def split: sum.splits)
    show ?thesis
    proof (cases r)
      case rNone: None
      have inv: "case None of
           None \<Rightarrow> \<forall>y \<in> set (visited @ [x]). \<exists>h. toHTML y = Inr h
         | Some l \<Rightarrow> concatResults (map toHTML l) = concatResults (map toHTML (visited @ [x]))"
        using Cons.prems(2) rNone h by auto
      from Cons.IH [OF rest inv] show ?thesis
        using fx None rNone by (auto split: option.splits)
    next
      case (Some l)
      have inv: "case Some (pushRawHTML l h) of
           None \<Rightarrow> \<forall>y \<in> set (visited @ [x]). \<exists>h. toHTML y = Inr h
         | Some l' \<Rightarrow> concatResults (map toHTML l') = concatResults (map toHTML (visited @ [x]))"
        using Cons.prems(2) Some h
        by (simp add: toHTML_pushRawHTML concatResults_append split: sum.splits)
      from Cons.IH [OF rest inv] show ?thesis
        using fx None Some h by (auto split: option.splits)
    qed
  next
    case (Some p)
    with ok fx have p: "toHTML p = toHTML x"
      by (simp add: partsOK_def)
    show ?thesis
    proof (cases r)
      case rNone: None
      with Cons.prems(2) have vis: "\<forall>y \<in> set visited. \<exists>h. toHTML y = Inr h"
        by simp
      from stringifyParts_ok [OF vis, of "[]"] obtain l where
        l: "stringifyParts [] visited = Inr l"
          "concatResults (map toHTML l) = concatResults (map toHTML visited)"
        by (auto split: sum.splits)
      have inv: "case Some (l @ [p]) of
           None \<Rightarrow> \<forall>y \<in> set (visited @ [x]). \<exists>h. toHTML y = Inr h
         | Some l' \<Rightarrow> concatResults (map toHTML l') = concatResults (map toHTML (visited @ [x]))"
        using l(2) p by (simp add: concatResults_append)
      from Cons.IH [OF rest inv] show ?thesis
        using fx Some rNone l(1) by (auto split: option.splits)
    next
      case rSome: (Some l)
      have inv: "case Some (l @ [p]) of
           None \<Rightarrow> \<forall>y \<in> set (visited @ [x]). \<exists>h. toHTML y = Inr h
         | Some l' \<Rightarrow> concatResults (map toHTML l') = concatResults (map toHTML (visited @ [x]))"
        using Cons.prems(2) rSome p by (simp add: concatResults_append)
      from Cons.IH [OF rest inv] show ?thesis
        using fx Some rSome by (auto split: option.splits)
    qed
  qed
qed

lemma optimizeArrayParts_ok:
  assumes "\<forall>x \<in> set xs. partsOK f x"
  shows "\<exists>res. optimizeArrayParts xs f force = Inr res \<and>
           (case res of
              None \<Rightarrow> \<forall>x \<in> set xs. \<exists>h. toHTML x = Inr h
            | Some l \<Rightarrow> concatResults (map toHTML l) = concatResults (map toHTML xs))"
proof -
  have inv: "case (if force then Some [] else None) of
           None \<Rightarrow> \<forall>x \<in> set []. \<exists>h. toHTML x = Inr h
         | Some l \<Rightarrow> concatResults (map toHTML l) = concatResults (map toHTML [])"
    by simp
  from optimizeArrayLoop_ok [OF assms inv] obtain res where
    res: "optimizeArrayLoop f [] xs (if force then Some [] else None) = Inr res"
      "case res of
         None \<Rightarrow> \<forall>x \<in> set xs. \<exists>h. toHTML x = Inr h
       | Some l \<Rightarrow> concatResults (map toHTML l) = concatResults (map toHTML xs)"
    by (auto split: option.splits)
  show ?thesis
  proof (cases res)
    case None
    with res show ?thesis by (simp add: optimizeArrayParts_def)
  next
    case (Some l)
    with res show ?thesis
      by (simp add: optimizeArrayParts_def toHTML_map_demoteRaw del: map_map)
  qed
qed

lemma optimizeParts_ok: "partsOK optimizeParts n"
proof (induction n rule: optimizeParts.induct)
  case (6 tagName attrs children)
  show ?case
  proof (cases "tagName = js ''TEXTAREA''")
    case True
    then show ?thesis by (simp add: partsOK_def)
  next
    case False
    with 6 have "\<forall>x \<in> set children. partsOK optimizeParts x" by simp
    from optimizeArrayParts_ok [OF this, of "mustOptimize attrs"] obtain res where
      res: "optimizeArrayParts children optimizeParts (mustOptimize attrs) = Inr res"
        "case res of
           None \<Rightarrow> \<forall>x \<in> set children. \<exists>h. toHTML x = Inr h
         | Some l \<Rightarrow> concatResults (map toHTML l) = concatResults (map toHTML children)"
      by blast
    show ?thesis
    proof (cases res)
      case None
      with res(2) obtain s where "concatResults (map toHTML children) = Inr s"
        using concatResults_all_ok [of children toHTML] by auto
      then show ?thesis
        using False res(1) None by (simp add: partsOK_def)
    next
      case (Some l)
      then show ?thesis
        using False res by (simp add: partsOK_def)
    qed
  qed
next
  case (7 array)
  then have "\<forall>x \<in> set array. partsOK optimizeParts x" by simp
  from optimizeArrayParts_ok [OF this, of False] obtain res where
    res: "optimizeArrayParts array optimizeParts False = Inr res"
      "case res of
         None \<Rightarrow> \<forall>x \<in> set array. \<exists>h. toHTML x = Inr h
       | Some l \<Rightarrow> concatResults (map toHTML l) = concatResults (map toHTML array)"
    by blast
  show ?case
  proof (cases res)
    case None
    with res(2) obtain s where "concatResults (map toHTML array) = Inr s"
      using concatResults_all_ok [of array toHTML] by auto
    then show ?thesis
      using res(1) None by (simp add: partsOK_def)
  next
    case (Some l)
    then show ?thesis
      using res by (simp add: partsOK_def)
  qed
qed (simp_all add: partsOK_def)

lemma optimize_toHTML:
  "\<exists>t. optimize tree = Inr t \<and> toHTML t = toHTML tree"
proof -
  have ok: "partsOK optimizeParts tree" by (rule optimizeParts_ok)
  then obtain part where part: "optimizeParts tree = Inr part"
    by (auto simp: partsOK_def split: sum.splits)
  show ?thesis
  proof (cases part)
    case None
    with ok part obtain h where h: "toHTML tree = Inr h"
      by (auto simp: partsOK_def split: sum.splits)
    show ?thesis
      using part None h by (simp add: optimize_def isPureChars_def replaceAll_absent)
  next
    case (Some p)
    with ok part show ?thesis
      by (simp add: optimize_def partsOK_def)
  qed
qed

text \<open>
  C7.  For every tree without template tags (and without function values), \<open>optimize\<close>
  returns a tree, and rendering that tree with \<open>toHTML\<close> gives what rendering the
  original tree gives: the same string, or the same exception where the tree holds an
  \<open>EmitCode\<close>.
\<close>

theorem optimize_preserves_toHTML:
  "specialFree tree \<Longrightarrow> \<exists>t. optimize tree = Inr t \<and> toHTML t = toHTML tree"
  by (rule optimize_toHTML)

theorem optimize_preserves_toHTML_witness:
  "specialFree (Tag (js ''P'') None
       [Tag (js ''B'') None [Str (js ''x'')], Str (js ''hi''), Tag (js ''TEXTAREA'') None [],
        Str (js ''a''), Str (js ''<'')] :: unit node) \<and>
   (\<exists>t. optimize (Tag (js ''P'') None
       [Tag (js ''B'') None [Str (js ''x'')], Str (js ''hi''), Tag (js ''TEXTAREA'') None [],
        Str (js ''a''), Str (js ''<'')] :: unit node) = Inr t \<and>
      toHTML t = Inr (js ''<p><b>x</b>hi<textarea></textarea>a&lt;</p>''))"
proof -
  let ?t = "Tag (js ''P'') None
       [Tag (js ''B'') None [Str (js ''x'')], Str (js ''hi''), Tag (js ''TEXTAREA'') None [],
        Str (js ''a''), Str (js ''<'')] :: unit node"
  have h: "specialFree ?t"
    by (simp add: mustOptimize_def)
  have r: "toHTML ?t = Inr (js ''<p><b>x</b>hi<textarea></textarea>a&lt;</p>'')"
    by code_simp
  from optimize_preserves_toHTML [OF h] r h show ?thesis
    by simp
qed

section \<open>Code generation and the optimizer\<close>

text \<open>
  What \<open>codeGen\<close> does with \<open>isTemplate\<close> true, at the parse tree of \<open><p>hi</p>\<close>: the
  tree reaches the specialization pass as it is, whatever that pass, the serializer and
  the beautifier are, although the optimizer collapses this tree to \<open>Raw "<p>hi</p>"\<close>.
  The variable \<open>isTemplate\<close> is read before it is assigned.
\<close>

lemma codeGen_skips_optimize:
  "codeGen replaceSpecials toJS beautify (Tag (js ''P'') None [Str (js ''hi'')])
       (Some \<lparr>isTemplate = True\<rparr>)
     = (case replaceSpecials (Tag (js ''P'') None [Str (js ''hi'')]) of
          Inl e \<Rightarrow> Inl (PassFailed e)
        | Inr tree \<Rightarrow>
            (case toJS tree of
               Inl e \<Rightarrow> Inl (PassFailed e)
             | Inr treeCode \<Rightarrow>
                 Inr (beautify (js ''(function () { var self = this; var __content = self.__content, __elseContent = self.__elseContent; return '' @ treeCode @ js ''; })''))))
   \<and> optimize (Tag (js ''P'') None [Str (js ''hi'')] :: 's node) = Inr (Raw (js ''<p>hi</p>''))"
proof -
  have "optimize (Tag (js ''P'') None [Str (js ''hi'')] :: 's node) = Inr (Raw (js ''<p>hi</p>''))"
    by (simp add: optimize_def optimizeArrayParts_def js_def ch_def properCaseTagName_def toLowerCase_def attrsToHTML_def isPureChars_def mustOptimize_def replaceAll_def)
  then show ?thesis
    by (simp add: codeGen_def js_def split: sum.splits)
qed

lemma optimizeArrayLoop_all_plain:
  "\<forall>x \<in> set xs. f x = Inr None \<Longrightarrow> optimizeArrayLoop f visited xs None = Inr None"
  by (induction xs arbitrary: visited) simp_all

lemma optimizeParts_plain: "plainTree n \<Longrightarrow> optimizeParts n = Inr None"
proof (induction n rule: optimizeParts.induct)
  case (6 tagName attrs children)
  then have "\<forall>x \<in> set children. optimizeParts x = Inr None"
    by (simp add: list_all_iff)
  from optimizeArrayLoop_all_plain [OF this, of "[]"] 6(2) show ?case
    by (simp add: optimizeArrayParts_def)
next
  case (7 array)
  then have "\<forall>x \<in> set array. optimizeParts x = Inr None"
    by (simp add: list_all_iff)
  from optimizeArrayLoop_all_plain [OF this, of "[]"] show ?case
    by (simp add: optimizeArrayParts_def)
qed simp_all

text \<open>
  C1, as amended.  The optimizer, the step that \<open>codeGen\<close> places before the
  specialization pass for a template, collapses a parse tree without template tags,
  functions, dynamic attributes and \<open>TEXTAREA\<close> elements to the \<open>Raw\<close> of its HTML, or
  to the plain string when the HTML has neither \<open>&\<close> nor \<open><\<close>.
\<close>

theorem optimize_collapses_plain_tree:
  "plainTree tree \<Longrightarrow>
   \<exists>html. toHTML tree = Inr html \<and>
     optimize tree = Inr (if isPureChars html then Str html else Raw html)"
proof -
  assume "plainTree tree"
  then have none: "optimizeParts tree = Inr None"
    by (rule optimizeParts_plain)
  with optimizeParts_ok [of tree] obtain html where "toHTML tree = Inr html"
    by (auto simp: partsOK_def split: sum.splits)
  with none show ?thesis
    by (simp add: optimize_def)
qed

theorem optimize_collapses_plain_tree_witness:
  "plainTree (Tag (js ''P'') None [Str (js ''hi'')] :: unit node) \<and>
   optimize (Tag (js ''P'') None [Str (js ''hi'')] :: unit node) = Inr (Raw (js ''<p>hi</p>'')) \<and>
   plainTree (Arr [Str (js ''a''), Str (js ''b'')] :: unit node) \<and>
   optimize (Arr [Str (js ''a''), Str (js ''b'')] :: unit node) = Inr (Str (js ''ab''))"
proof -
  let ?t = "Tag (js ''P'') None [Str (js ''hi'')] :: unit node"
  let ?u = "Arr [Str (js ''a''), Str (js ''b'')] :: unit node"
  have pt: "plainTree ?t"
    by (simp add: mustOptimize_def js_def ch_def)
  have pu: "plainTree ?u"
    by simp
  have ht: "toHTML ?t = Inr (js ''<p>hi</p>'')"
    by (simp add: properCaseTagName_def toLowerCase_def attrsToHTML_def replaceAll_def js_def ch_def)
  have hu: "toHTML ?u = Inr (js ''ab'')"
    by (simp add: replaceAll_def js_def ch_def)
  have it: "\<not> isPureChars (js ''<p>hi</p>'')"
    by (simp add: isPureChars_def js_def ch_def)
  have iu: "isPureChars (js ''ab'')"
    by (simp add: isPureChars_def js_def ch_def)
  from optimize_collapses_plain_tree [OF pt] ht it
  have ot: "optimize ?t = Inr (Raw (js ''<p>hi</p>''))"
    by simp
  from optimize_collapses_plain_tree [OF pu] hu iu
  have ou: "optimize ?u = Inr (Str (js ''ab''))"
    by simp
  from pt ot pu ou show ?thesis by blast
qed

text \<open>
  A \<open>TEXTAREA\<close> element has no template tags, functions or dynamic attributes, and the
  optimizer returns it as it is, not the \<open>Raw\<close> of its HTML.
\<close>

theorem optimize_collapses_counterexample:
  "specialFree (Tag (js ''TEXTAREA'') None [Str (js ''hi'')] :: unit node) \<and>
   toHTML (Tag (js ''TEXTAREA'') None [Str (js ''hi'')] :: unit node)
     = Inr (js ''<textarea>hi</textarea>'') \<and>
   optimize (Tag (js ''TEXTAREA'') None [Str (js ''hi'')] :: unit node)
     = Inr (Tag (js ''TEXTAREA'') None [Str (js ''hi'')]) \<and>
   optimize (Tag (js ''TEXTAREA'') None [Str (js ''hi'')] :: unit node)
     \<noteq> Inr (Raw (js ''<textarea>hi</textarea>''))"
proof -
  let ?t = "Tag (js ''TEXTAREA'') None [Str (js ''hi'')] :: unit node"
  have a: "specialFree ?t"
    by (simp add: mustOptimize_def)
  have b: "toHTML ?t = Inr (js ''<textarea>hi</textarea>'')"
    by (simp add: properCaseTagName_def toLowerCase_def attrsToHTML_def replaceAll_def js_def ch_def)
  have c: "optimize ?t = Inr ?t"
    by (simp add: optimize_def)
  from a b c show ?thesis by simp
qed

section \<open>Properties of the runtime\<close>

lemma evalArgs_error: "evalArgs app args w = (Inl e, w') \<Longrightarrow> \<exists>x. e = Thrown x"
  by (induction args arbitrary: w w')
     (auto simp: callIfFunction_def split: prod.splits sum.splits val.splits)

lemma evalArgs_length:
  "evalArgs app args w = (Inr vs, w') \<Longrightarrow> length vs = length args"
  by (induction args arbitrary: w vs)
     (auto split: prod.splits sum.splits)

lemma callIfFunction_evaluated:
  "callIfFunction app v w = (Inr v', w1) \<Longrightarrow> evaluated app vs w1 vs' w' \<Longrightarrow>
   evaluated app (v # vs) w (v' # vs') w'"
  by (cases v)
     (auto simp: callIfFunction_def split: prod.splits sum.splits intro: evaluated.intros)

lemma evalArgs_evaluated:
  "evalArgs app args w = (Inr vs, w') \<Longrightarrow> evaluated app args w vs w'"
proof (induction args arbitrary: w vs)
  case Nil
  then show ?case by (auto intro: evaluated.intros)
next
  case (Cons a args)
  from Cons.prems obtain v w1 vs' where
    v: "callIfFunction app a w = (Inr v, w1)" and
    r: "evalArgs app args w1 = (Inr vs', w')" and
    vs: "vs = v # vs'"
    by (auto split: prod.splits sum.splits)
  from callIfFunction_evaluated [OF v Cons.IH [OF r]] vs show ?case
    by simp
qed

text \<open>
  C8.  \<open>Spacebars.call\<close> throws its error exactly when \<open>value\<close> is no function and an
  argument is given; with no function and no argument it returns \<open>value\<close> and leaves the
  world alone; with a function it first evaluates the arguments from left to right
  (calling each argument that is a function with no arguments) and then applies \<open>value\<close>
  to the results.  An exception thrown by one of the functions called is passed on.
\<close>

theorem Spacebars_call_behaviour:
  "((\<exists>v. fst (Spacebars_call app value args w) = Inl (CantCallNonFunction v))
      \<longleftrightarrow> \<not> isFunction value \<and> args \<noteq> []) \<and>
   (\<not> isFunction value \<and> args \<noteq> [] \<longrightarrow>
      Spacebars_call app value args w = (Inl (CantCallNonFunction value), w)) \<and>
   (\<not> isFunction value \<and> args = [] \<longrightarrow> Spacebars_call app value args w = (Inr value, w)) \<and>
   (\<forall>f newArgs w'. value = VFun f \<and> evalArgs app args w = (Inr newArgs, w') \<longrightarrow>
      evaluated app args w newArgs w' \<and>
      Spacebars_call app value args w =
        (case app f newArgs w' of
           (Inl e, w'') \<Rightarrow> (Inl (Thrown e), w'')
         | (Inr r, w'') \<Rightarrow> (Inr r, w''))) \<and>
   (\<forall>f e w'. value = VFun f \<and> evalArgs app args w = (Inl e, w') \<longrightarrow>
      Spacebars_call app value args w = (Inl e, w'))"
proof -
  have 1: "(\<exists>v. fst (Spacebars_call app value args w) = Inl (CantCallNonFunction v))
      \<longleftrightarrow> \<not> isFunction value \<and> args \<noteq> []"
    by (cases "value")
       (auto simp: Spacebars_call_def split: prod.splits sum.splits dest: evalArgs_error)
  have 2: "\<not> isFunction value \<and> args \<noteq> [] \<longrightarrow>
      Spacebars_call app value args w = (Inl (CantCallNonFunction value), w)"
    by (cases "value") (auto simp: Spacebars_call_def)
  have 3: "\<not> isFunction value \<and> args = [] \<longrightarrow> Spacebars_call app value args w = (Inr value, w)"
    by (cases "value") (auto simp: Spacebars_call_def)
  have 4: "\<forall>f newArgs w'. value = VFun f \<and> evalArgs app args w = (Inr newArgs, w') \<longrightarrow>
      evaluated app args w newArgs w' \<and>
      Spacebars_call app value args w =
        (case app f newArgs w' of
           (Inl e, w'') \<Rightarrow> (Inl (Thrown e), w'')
         | (Inr r, w'') \<Rightarrow> (Inr r, w''))"
    by (auto simp: Spacebars_call_def evalArgs_evaluated split: prod.splits sum.splits)
  have 5: "\<forall>f e w'. value = VFun f \<and> evalArgs app args w = (Inl e, w') \<longrightarrow>
      Spacebars_call app value args w = (Inl e, w')"
    by (auto simp: Spacebars_call_def)
  from 1 2 3 4 5 show ?thesis by blast
qed

lemma evalHash_evaluated:
  "evalHash app hash w = (Inr newHash, w') \<Longrightarrow>
   map fst newHash = map fst hash \<and> evaluated app (map snd hash) w (map snd newHash) w'"
proof (induction hash arbitrary: w newHash)
  case Nil
  then show ?case by (auto intro: evaluated.intros)
next
  case (Cons kv hash)
  obtain k v where kv: "kv = (k, v)" by (cases kv)
  from Cons.prems kv obtain v' w1 nh where
    v': "callIfFunction app v w = (Inr v', w1)" and
    nh: "evalHash app hash w1 = (Inr nh, w')" and
    new: "newHash = (k, v') # nh"
    by (auto split: prod.splits sum.splits)
  from Cons.IH [OF nh] have
    "map fst nh = map fst hash" "evaluated app (map snd hash) w1 (map snd nh) w'"
    by simp_all
  then show ?case
    using kv new callIfFunction_evaluated [OF v'] by simp
qed

theorem Spacebars_call_behaviour_witness:
  "Spacebars_call exampleApp (VNum 5) [VNum 1] [] = (Inl (CantCallNonFunction (VNum 5)), []) \<and>
   Spacebars_call exampleApp (VNum 5) [] [] = (Inr (VNum 5), []) \<and>
   Spacebars_call exampleApp (VFun 0) [VFun 1, VNum 7] []
     = (Inr (VNum 2), [(1, []), (0, [VStr (js ''x''), VNum 7])]) \<and>
   Spacebars_call exampleApp (VFun 0) [VFun 2, VFun 1] [] = (Inl (Thrown ()), [(2, [])])"
proof -
  have a: "Spacebars_call exampleApp (VNum 5) [VNum 1] [] = (Inl (CantCallNonFunction (VNum 5)), [])"
    using Spacebars_call_behaviour [of exampleApp "VNum 5" "[VNum 1]" "[]"] by simp
  have b: "Spacebars_call exampleApp (VNum 5) [] [] = (Inr (VNum 5), [])"
    using Spacebars_call_behaviour [of exampleApp "VNum 5" "[]" "[]"] by simp
  have e1: "evalArgs exampleApp [VFun 1, VNum 7] [] = (Inr [VStr (js ''x''), VNum 7], [(1, [])])"
    by (simp add: callIfFunction_def exampleApp_def)
  have c: "Spacebars_call exampleApp (VFun 0) [VFun 1, VNum 7] []
     = (Inr (VNum 2), [(1, []), (0, [VStr (js ''x''), VNum 7])])"
    using Spacebars_call_behaviour [of exampleApp "VFun 0" "[VFun 1, VNum 7]" "[]"] e1
    by (simp add: exampleApp_def)
  have e2: "evalArgs exampleApp [VFun 2, VFun 1] [] = (Inl (Thrown ()), [(2, [])])"
    by (simp add: callIfFunction_def exampleApp_def)
  have d: "Spacebars_call exampleApp (VFun 0) [VFun 2, VFun 1] [] = (Inl (Thrown ()), [(2, [])])"
    using Spacebars_call_behaviour [of exampleApp "VFun 0" "[VFun 2, VFun 1]" "[]"] e2
    by simp
  from a b c d show ?thesis by blast
qed

text \<open>
  C9.  With an argument after the name, the arguments that \<open>mustacheImpl\<close> (and so
  \<open>Spacebars.mustache\<close> and \<open>Spacebars.attrMustache\<close>) hands to \<open>Spacebars.call\<close> end
  with an instance of \<open>Spacebars.kw\<close>: a fresh empty one is appended when the last
  argument is none, and otherwise the last argument is replaced by a new one with the
  same keys whose function entries have been called with no arguments.  With no argument
  after the name nothing is added.
\<close>

theorem mustacheImpl_kw_last:
  "(\<forall>args' w'. args \<noteq> [] \<and> mustacheImplArgs app args w = (Inr args', w') \<longrightarrow>
      args' \<noteq> [] \<and> isKw (last args')) \<and>
   (args \<noteq> [] \<and> \<not> isKw (last args) \<longrightarrow>
      mustacheImplArgs app args w = (Inr (args @ [VKw []]), w)) \<and>
   (\<forall>hash args' w'. args \<noteq> [] \<and> last args = VKw hash \<and>
        mustacheImplArgs app args w = (Inr args', w') \<longrightarrow>
      (\<exists>newHash. args' = butlast args @ [VKw newHash] \<and>
         map fst newHash = map fst hash \<and>
         evaluated app (map snd hash) w (map snd newHash) w')) \<and>
   (args = [] \<longrightarrow> mustacheImplArgs app args w = (Inr [], w)) \<and>
   mustacheImpl app value args w =
     (case mustacheImplArgs app args w of
        (Inl e, w') \<Rightarrow> (Inl e, w')
      | (Inr args', w') \<Rightarrow> Spacebars_call app value args' w') \<and>
   Spacebars_mustache safeString toStr app value args w =
     (case mustacheImpl app value args w of
        (Inl e, w') \<Rightarrow> (Inl e, w')
      | (Inr result, w') \<Rightarrow> (Inr (mustacheResult safeString toStr result :: 's node), w')) \<and>
   Spacebars_attrMustache isValidAttributeName app value args w =
     (case mustacheImpl app value args w of
        (Inl e, w') \<Rightarrow> (Inl e, w')
      | (Inr result, w') \<Rightarrow> (attrMustacheResult isValidAttributeName result, w'))"
proof -
  have 1: "\<forall>args' w'. args \<noteq> [] \<and> mustacheImplArgs app args w = (Inr args', w') \<longrightarrow>
      args' \<noteq> [] \<and> isKw (last args')"
    by (auto simp: mustacheImplArgs_def split: val.splits prod.splits sum.splits)
  have 2: "args \<noteq> [] \<and> \<not> isKw (last args) \<longrightarrow>
      mustacheImplArgs app args w = (Inr (args @ [VKw []]), w)"
    by (auto simp: mustacheImplArgs_def split: val.splits)
  have 3: "\<forall>hash args' w'. args \<noteq> [] \<and> last args = VKw hash \<and>
        mustacheImplArgs app args w = (Inr args', w') \<longrightarrow>
      (\<exists>newHash. args' = butlast args @ [VKw newHash] \<and>
         map fst newHash = map fst hash \<and>
         evaluated app (map snd hash) w (map snd newHash) w')"
    by (auto simp: mustacheImplArgs_def evalHash_evaluated split: prod.splits sum.splits)
  have 4: "args = [] \<longrightarrow> mustacheImplArgs app args w = (Inr [], w)"
    by (simp add: mustacheImplArgs_def)
  show ?thesis
    using 1 2 3 4
    unfolding mustacheImpl_def Spacebars_mustache_def Spacebars_attrMustache_def
    by blast
qed

theorem mustacheImpl_kw_last_witness:
  "mustacheImplArgs exampleApp [VNum 3] [] = (Inr [VNum 3, VKw []], []) \<and>
   mustacheImplArgs exampleApp [VNum 3, VKw [(js ''a'', VFun 1), (js ''b'', VNum 2)]] []
     = (Inr [VNum 3, VKw [(js ''a'', VStr (js ''x'')), (js ''b'', VNum 2)]], [(1, [])]) \<and>
   isKw (last [VNum 3, VKw [(js ''a'', VStr (js ''x'')), (js ''b'', VNum 2)]] :: nat val) \<and>
   mustacheImplArgs exampleApp [] [] = (Inr [], [])"
proof -
  have a: "mustacheImplArgs exampleApp [VNum 3] [] = (Inr [VNum 3, VKw []], [])"
    using mustacheImpl_kw_last [of "[VNum 3]" exampleApp "[]" VNull "\<lambda>v. None" "\<lambda>v. []" "\<lambda>s. True"]
    by simp blast
  have b: "mustacheImplArgs exampleApp [VNum 3, VKw [(js ''a'', VFun 1), (js ''b'', VNum 2)]] []
     = (Inr [VNum 3, VKw [(js ''a'', VStr (js ''x'')), (js ''b'', VNum 2)]], [(1, [])])"
    by (simp add: mustacheImplArgs_def callIfFunction_def exampleApp_def)
  have c: "isKw (last [VNum 3, VKw [(js ''a'', VStr (js ''x'')), (js ''b'', VNum 2)]] :: nat val)"
    using mustacheImpl_kw_last [of "[VNum 3, VKw [(js ''a'', VFun 1), (js ''b'', VNum 2)]]" exampleApp "[]" VNull "\<lambda>v. None" "\<lambda>v. []" "\<lambda>s. True"] b
    by blast
  have d: "mustacheImplArgs exampleApp [] [] = (Inr [], [])"
    using mustacheImpl_kw_last [of "[]" exampleApp "[]" VNull "\<lambda>v. None" "\<lambda>v. []" "\<lambda>s. True"]
    by simp blast
  from a b c d show ?thesis by blast
qed

section \<open>Properties of the scanner\<close>

lemma expected_other: "\<not> isOnlyOnePositional (expected what st)"
  by (simp add: expected_def error_def js_def ch_def)

lemma scanIdentifier_other:
  "scanIdentifier lexer inputString b st = Inl e \<Longrightarrow> \<not> isOnlyOnePositional e"
  by (auto simp: scanIdentifier_def Let_def expected_other split: if_splits)

lemma eachDotClause_other:
  "eachDotClause st b a cs = Inl e \<Longrightarrow> \<not> isOnlyOnePositional e"
  by (induction st b a cs rule: eachDotClause.induct) (auto simp: expected_other split: if_splits)

lemma scanPathDots_other: "scanPathDots st = Inl e \<Longrightarrow> \<not> isOnlyOnePositional e"
  by (auto simp: scanPathDots_def Let_def split: prod.splits option.splits sum.splits if_splits
      dest: eachDotClause_other)

lemma scanSegment_other:
  "scanSegment lexer inputString segments st = Inl e \<Longrightarrow> \<not> isOnlyOnePositional e"
  by (auto simp: scanSegment_def Let_def error_def js_def ch_def
      split: prod.splits option.splits sum.splits if_splits dest: scanIdentifier_other)

lemma scanPathSegment_other:
  "scanPathSegment lexer inputString segments st = Inl e \<Longrightarrow> \<not> isOnlyOnePositional e"
  by (auto simp: scanPathSegment_def split: prod.splits option.splits sum.splits
      dest: scanSegment_other)

lemma scanPathLoop_other:
  "scanPathLoop lexer inputString segments st = Inl e \<Longrightarrow> \<not> isOnlyOnePositional e"
proof (induction lexer inputString segments st rule: scanPathLoop.induct)
  case (1 lexer inputString segments st)
  show ?case
  proof (cases "scanPathSegment lexer inputString segments st")
    case (Inl e')
    with "1.prems" have "e' = e"
      by (simp add: scanPathLoop.simps [of lexer inputString segments st])
    with Inl show ?thesis by (simp add: scanPathSegment_other)
  next
    case (Inr l)
    show ?thesis
    proof (cases l)
      case (Break r)
      with Inr "1.prems" show ?thesis
        by (simp add: scanPathLoop.simps [of lexer inputString segments st])
    next
      case (Continue c)
      obtain segments' st1 where c: "c = (segments', st1)" by (cases c)
      from Inr Continue c "1.prems" have "scanPathLoop lexer inputString segments' st1 = Inl e"
        by (simp add: scanPathLoop.simps [of lexer inputString segments st])
      from "1.IH" [OF Inr Continue c [symmetric] this] show ?thesis .
    qed
  qed
qed

lemma scanPath_other:
  "scanPath lexer inputString st = Inl e \<Longrightarrow> \<not> isOnlyOnePositional e"
  by (auto simp: scanPath_def split: sum.splits loop.splits prod.splits
      dest: scanPathDots_other scanPathLoop_other)

lemma scanArg_other_notKeyword:
  assumes "scanArg lexer JSON_parse inputString True st = Inl e"
  shows "\<not> isOnlyOnePositional e"
  using assms
  apply (subst (asm) scanArg.simps)
  apply (simp add: Let_def split: if_splits sum.splits prod.splits option.splits)
  apply (auto simp: expected_other dest: scanPath_other)
  done

lemma scanArg_other:
  assumes "scanArg lexer JSON_parse inputString notKeyword st = Inl e"
  shows "\<not> isOnlyOnePositional e"
proof (cases notKeyword)
  case True
  with assms show ?thesis by (simp add: scanArg_other_notKeyword)
next
  case False
  from assms False show ?thesis
    apply (subst (asm) scanArg.simps)
    apply (simp add: Let_def split: if_splits sum.splits prod.splits option.splits arg.splits)
    apply (auto simp: expected_other dest: scanPath_other scanArg_other_notKeyword)
    done
qed

lemma scanTagEnd_other: "scanTagEnd type st = Inl e \<Longrightarrow> \<not> isOnlyOnePositional e"
  by (auto simp: scanTagEnd_def expected_other split: if_splits prod.splits option.splits)

lemma scanArgsStep_other:
  "scanArgsStep lexer JSON_parse inputString type args st = Inl e \<Longrightarrow> \<not> isOnlyOnePositional e"
  unfolding scanArgsStep_def Let_def
  by (auto simp: expected_other split: sum.splits loop.splits prod.splits option.splits if_splits
      dest: scanTagEnd_other scanArg_other)

lemma scanArgs_other:
  "scanArgs lexer JSON_parse inputString type args st = Inl e \<Longrightarrow> \<not> isOnlyOnePositional e"
proof (induction lexer JSON_parse inputString type args st rule: scanArgs.induct)
  case (1 lexer JSON_parse inputString type args st)
  show ?case
  proof (cases "scanArgsStep lexer JSON_parse inputString type args st")
    case (Inl e')
    with "1.prems" have "e' = e"
      by (simp add: scanArgs.simps [of lexer JSON_parse inputString type args st])
    with Inl show ?thesis by (simp add: scanArgsStep_other)
  next
    case (Inr l)
    show ?thesis
    proof (cases l)
      case (Break r)
      with Inr "1.prems" show ?thesis
        by (simp add: scanArgs.simps [of lexer JSON_parse inputString type args st])
    next
      case (Continue c)
      obtain args' st1 where c: "c = (args', st1)" by (cases c)
      from Inr Continue c "1.prems"
      have "scanArgs lexer JSON_parse inputString type args' st1 = Inl e"
        by (simp add: scanArgs.simps [of lexer JSON_parse inputString type args st])
      from "1.IH" [OF Inr Continue c [symmetric] this] show ?thesis .
    qed
  qed
qed

lemma scanTagType_other: "scanTagType st = Inl e \<Longrightarrow> \<not> isOnlyOnePositional e"
  by (auto simp: scanTagType_def error_def js_def ch_def split: prod.splits option.splits)

lemma scanTagBody_other:
  "scanTagBody lexer JSON_parse inputString type st = Inl e \<Longrightarrow> \<not> isOnlyOnePositional e"
  unfolding scanTagBody_def
  by (auto simp: expected_other error_def js_def ch_def
      split: if_splits sum.splits prod.splits option.splits
      dest: scanPath_other scanArgs_other)

lemma assembleTag_other:
  "assembleTag lexer JSON_parse inputString pos0 = Inl e \<Longrightarrow> \<not> isOnlyOnePositional e"
  by (auto simp: assembleTag_def split: sum.splits prod.splits
      dest: scanTagType_other scanTagBody_other)

lemmas scanner_defs =
  parseStacheTag_def assembleTag_def scanTagType_def scanTagBody_def checkTag_def newTag_def
  numPosArgs_def scanArgs.simps scanArgsStep_def scanTagEnd_def scanArg.simps scanPath_def
  scanPathLoop.simps scanPathSegment_def scanSegment_def scanPathDots_def scanIdentifier_def
  scanToken_def expected_def error_def run_def advance_def
  starts_ELSE_def starts_DOUBLE_def starts_TRIPLE_def starts_COMMENT_def starts_INCLUSION_def
  starts_BLOCKOPEN_def starts_BLOCKCLOSE_def startsOpen_def startsSigil_def
  ends_DOUBLE_def ends_TRIPLE_def endsWith_def re_dots_def re_oneOf_def re_toBracket_def
  re_spaces_def re_equals_def test_equals_def re_spaceOrBraceAhead_def
  startsWith_def notSigilAhead_def matchesIgnoreCase_def toLowerCase_def spaces_def isSpace_def
  requote_def replaceLineContinuations_def js_def ch_def Let_def

lemmas example_defs =
  exampleLexer_def exampleJSON_parse_def isIdentStart_def isDigit_def

lemma scanTagBody_shape:
  assumes "scanTagBody lexer JSON_parse inputString type st = Inr (tag, st')"
  shows "tagType tag = type \<and> (type = INCLUSION \<longrightarrow> (\<exists>args. tagArgs tag = Some args))"
  using assms unfolding scanTagBody_def
  by (auto simp: newTag_def split: if_splits sum.splits prod.splits option.splits)

lemma assembleTag_shape:
  assumes "assembleTag lexer JSON_parse inputString pos0 = Inr (tag, st)"
  shows "tagType tag = INCLUSION \<longrightarrow> (\<exists>args. tagArgs tag = Some args)"
  using assms scanTagBody_shape unfolding assembleTag_def
  by (fastforce split: sum.splits prod.splits)

text \<open>
  C4.  \<open>parseStacheTag\<close> throws the error \<open>Only one positional argument is allowed here\<close>
  exactly when the tag it has assembled is an \<open>INCLUSION\<close> with more than one positional
  argument; so every \<open>INCLUSION\<close> tag that it returns has at most one.
\<close>

theorem parseStacheTag_one_positional:
  "((\<exists>e. parseStacheTag lexer JSON_parse inputString pos0 = Inl e \<and> isOnlyOnePositional e) \<longleftrightarrow>
      (\<exists>tag st args. assembleTag lexer JSON_parse inputString pos0 = Inr (tag, st) \<and>
         tagType tag = INCLUSION \<and> tagArgs tag = Some args \<and> 1 < numPosArgs args)) \<and>
   (\<forall>tag. parseStacheTag lexer JSON_parse inputString pos0 = Inr tag \<and> tagType tag = INCLUSION \<longrightarrow>
      (\<exists>args. tagArgs tag = Some args \<and> numPosArgs args \<le> 1))"
proof (cases "assembleTag lexer JSON_parse inputString pos0")
  case (Inl e)
  then have "parseStacheTag lexer JSON_parse inputString pos0 = Inl e"
    by (simp add: parseStacheTag_def)
  with Inl assembleTag_other [OF Inl] show ?thesis by simp
next
  case (Inr r)
  obtain tag st where r: "r = (tag, st)" by (cases r)
  note shape = assembleTag_shape [OF Inr [unfolded r]]
  show ?thesis
  proof (cases "tagType tag = INCLUSION")
    case False
    with Inr r show ?thesis
      by (auto simp: parseStacheTag_def checkTag_def)
  next
    case True
    with shape obtain args where args: "tagArgs tag = Some args" by blast
    show ?thesis
    proof (cases "1 < numPosArgs args")
      case many: True
      with Inr r True args show ?thesis
        by (simp add: parseStacheTag_def checkTag_def error_def)
    next
      case few: False
      with Inr r True args show ?thesis
        by (auto simp: parseStacheTag_def checkTag_def)
    qed
  qed
qed

theorem parseStacheTag_one_positional_witness:
  "parseStacheTag exampleLexer exampleJSON_parse (js ''{{> a b c}}'') 0
     = Inl (Error (js ''Only one positional argument is allowed here'') 11) \<and>
   (\<exists>tag st. assembleTag exampleLexer exampleJSON_parse (js ''{{> a b c}}'') 0 = Inr (tag, st) \<and>
      tagType tag = INCLUSION \<and>
      tagArgs tag = Some [Arg (PATH [js ''b'']) None, Arg (PATH [js ''c'']) None]) \<and>
   parseStacheTag exampleLexer exampleJSON_parse (js ''{{> a b k=c}}'') 0
     = Inr \<lparr>tagType = INCLUSION, tagPath = Some [js ''a''],
            tagArgs = Some [Arg (PATH [js ''b'']) None, Arg (PATH [js ''c'']) (Some (js ''k''))],
            tagValue = None, charPos = 0, charLength = 13\<rparr> \<and>
   numPosArgs [Arg (PATH [js ''b'']) None, Arg (PATH [js ''c'']) (Some (js ''k''))] \<le> 1"
proof -
  have a: "assembleTag exampleLexer exampleJSON_parse (js ''{{> a b c}}'') 0
     = Inr (\<lparr>tagType = INCLUSION, tagPath = Some [js ''a''],
            tagArgs = Some [Arg (PATH [js ''b'']) None, Arg (PATH [js ''c'']) None],
            tagValue = None, charPos = 0, charLength = 0\<rparr>, \<lparr>str = [], pos = 11\<rparr>)"
    by (simp add: scanner_defs example_defs)
  have n: "1 < numPosArgs [Arg (PATH [js ''b'']) None, Arg (PATH [js ''c'']) None]"
    by (simp add: numPosArgs_def)
  from a n parseStacheTag_one_positional [of exampleLexer exampleJSON_parse "js ''{{> a b c}}''" 0]
  obtain e where e: "parseStacheTag exampleLexer exampleJSON_parse (js ''{{> a b c}}'') 0 = Inl e"
    "isOnlyOnePositional e"
    by fastforce
  have p: "parseStacheTag exampleLexer exampleJSON_parse (js ''{{> a b c}}'') 0
     = Inl (Error (js ''Only one positional argument is allowed here'') 11)"
    using a n by (simp add: parseStacheTag_def checkTag_def error_def)
  have b: "parseStacheTag exampleLexer exampleJSON_parse (js ''{{> a b k=c}}'') 0
     = Inr \<lparr>tagType = INCLUSION, tagPath = Some [js ''a''],
            tagArgs = Some [Arg (PATH [js ''b'']) None, Arg (PATH [js ''c'']) (Some (js ''k''))],
            tagValue = None, charPos = 0, charLength = 13\<rparr>"
    by (simp add: scanner_defs example_defs)
  from b parseStacheTag_one_positional [of exampleLexer exampleJSON_parse "js ''{{> a b k=c}}''" 0]
  have m: "numPosArgs [Arg (PATH [js ''b'']) None, Arg (PATH [js ''c'']) (Some (js ''k''))] \<le> 1"
    by simp
  from a p b m e show ?thesis by simp
qed

text \<open>
  C2, as amended.  On \<open>{{..}}\<close> at position 0 \<open>parseStacheTag\<close> returns a tag with the
  path \<open>[".."]\<close>, whatever the tokenizer; on \<open>{{../../x}}\<close> it returns a tag with the path
  \<open>["...", "x"]\<close> (one dot more than there are steps up), given that the tokenizer finds the
  identifier \<open>x\<close> at position 8.
\<close>

theorem parseStacheTag_dot_paths:
  "parseStacheTag lexer JSON_parse (js ''{{..}}'') 0 =
     Inr \<lparr>tagType = DOUBLE, tagPath = Some [js ''..''], tagArgs = Some [],
          tagValue = None, charPos = 0, charLength = 6\<rparr> \<and>
   (lexer (js ''{{../../x}}'') 8 = \<lparr>tokType = js ''IDENTIFIER'', tokText = js ''x''\<rparr> \<longrightarrow>
    parseStacheTag lexer JSON_parse (js ''{{../../x}}'') 0 =
      Inr \<lparr>tagType = DOUBLE, tagPath = Some [js ''...'', js ''x''], tagArgs = Some [],
           tagValue = None, charPos = 0, charLength = 11\<rparr>)"
proof -
  have a: "parseStacheTag lexer JSON_parse (js ''{{..}}'') 0 =
     Inr \<lparr>tagType = DOUBLE, tagPath = Some [js ''..''], tagArgs = Some [],
          tagValue = None, charPos = 0, charLength = 6\<rparr>"
    by (simp add: scanner_defs)
  have b: "parseStacheTag lexer JSON_parse (js ''{{../../x}}'') 0 =
      Inr \<lparr>tagType = DOUBLE, tagPath = Some [js ''...'', js ''x''], tagArgs = Some [],
           tagValue = None, charPos = 0, charLength = 11\<rparr>"
    if l: "lexer (js ''{{../../x}}'') 8 = \<lparr>tokType = js ''IDENTIFIER'', tokText = js ''x''\<rparr>"
  proof -
    have n: "(8::nat) = Suc (Suc (Suc (Suc (Suc (Suc (Suc (Suc 0)))))))" by simp
    from l [unfolded n] show ?thesis
      by (simp add: scanner_defs)
  qed
  from a b show ?thesis by blast
qed

theorem parseStacheTag_dot_paths_witness:
  "exampleLexer (js ''{{../../x}}'') 8 = \<lparr>tokType = js ''IDENTIFIER'', tokText = js ''x''\<rparr> \<and>
   parseStacheTag exampleLexer exampleJSON_parse (js ''{{../../x}}'') 0 =
      Inr \<lparr>tagType = DOUBLE, tagPath = Some [js ''...'', js ''x''], tagArgs = Some [],
           tagValue = None, charPos = 0, charLength = 11\<rparr>"
proof -
  have l: "exampleLexer (js ''{{../../x}}'') 8 = \<lparr>tokType = js ''IDENTIFIER'', tokText = js ''x''\<rparr>"
    by (simp add: example_defs js_def ch_def)
  with parseStacheTag_dot_paths [of exampleLexer exampleJSON_parse] show ?thesis
    by blast
qed

text \<open>The path for \<open>{{../../x}}\<close> is not \<open>["....", "x"]\<close>.\<close>

theorem parseStacheTag_dot_paths_counterexample:
  "parseStacheTag exampleLexer exampleJSON_parse (js ''{{../../x}}'') 0 =
      Inr \<lparr>tagType = DOUBLE, tagPath = Some [js ''...'', js ''x''], tagArgs = Some [],
           tagValue = None, charPos = 0, charLength = 11\<rparr> \<and>
   Some [js ''...'', js ''x''] \<noteq> Some [js ''....'', js ''x'']"
proof -
  have "parseStacheTag exampleLexer exampleJSON_parse (js ''{{../../x}}'') 0 =
      Inr \<lparr>tagType = DOUBLE, tagPath = Some [js ''...'', js ''x''], tagArgs = Some [],
           tagValue = None, charPos = 0, charLength = 11\<rparr>"
    by (simp add: scanner_defs example_defs)
  moreover have "Some [js ''...'', js ''x''] \<noteq> Some [js ''....'', js ''x'']"
    by (simp add: js_def)
  ultimately show ?thesis by simp
qed

lemma replaceAll_single: "replaceAll c [r] s = map (\<lambda>x. if x = c then r else x) s"
  by (induction s) (simp_all add: replaceAll_def)

lemma lineTerminatorsToN_eq: "lineTerminatorsToN text = replaceLineContinuations text"
  by (simp add: lineTerminatorsToN_def replaceLineContinuations_def js_def replaceAll_single ch_def)

lemma requote_eq:
  "q = ch CHR 0x27 \<or> q = ch CHR 0x22 \<Longrightarrow>
   requote (q # inner @ [q]) = swapOuterQuotes (q # inner @ [q])"
  by (auto simp: requote_def swapOuterQuotes_def ch_def)

text \<open>
  C3.  For a token that is a string literal (it starts the rest of the input and is
  enclosed in single or in double quotes), \<open>scanArg\<close> yields the \<open>STRING\<close> whose value is
  decoded as described: outer single quotes become double quotes, the characters CR, LF,
  U+2028 and U+2029 become the letter \<open>n\<close>, and the result is parsed as JSON; when
  \<open>JSON.parse\<close> throws, so does \<open>scanArg\<close>.
\<close>

theorem scanArg_string_decoding:
  assumes "tokType (scanToken lexer inputString st) = js ''STRING''"
    and "tokText (scanToken lexer inputString st) = q # inner @ [q]"
    and "q = ch CHR 0x27 \<or> q = ch CHR 0x22"
    and "startsWith (q # inner @ [q]) (str st)"
  shows "scanArg lexer JSON_parse inputString notKeyword st =
     (case decodeStringLiteral JSON_parse (q # inner @ [q]) of
        None \<Rightarrow> Inl SyntaxError
      | Some v \<Rightarrow> Inr (Arg (STRING v) None, advance (length (q # inner @ [q])) st))"
proof -
  from assms(4) obtain rest where s: "str st = q # rest"
    by (cases "str st") (auto simp: startsWith_def)
  with assms(3) have dot: "re_oneOf ''.['' (str st) = None"
    by (auto simp: re_oneOf_def js_def ch_def)
  have ty: "js ''STRING'' \<noteq> js ''PUNCTUATION''" "js ''STRING'' \<noteq> js ''BOOLEAN''"
    "js ''STRING'' \<noteq> js ''NULL''" "js ''STRING'' \<noteq> js ''NUMBER''"
    by (simp_all add: js_def ch_def)
  show ?thesis
    apply (subst scanArg.simps)
    apply (simp add: Let_def assms(1,2) dot ty decodeStringLiteral_def lineTerminatorsToN_eq
        requote_eq [OF assms(3)] split: option.splits)
    done
qed

theorem scanArg_string_decoding_witness:
  "scanArg exampleLexer exampleJSON_parse
       (js ''{{foo '' @ [ch CHR 0x27] @ js ''a'' @ [0x0A] @ js ''b'' @ [ch CHR 0x27] @ js ''}}'')
       False
       \<lparr>str = [ch CHR 0x27] @ js ''a'' @ [0x0A] @ js ''b'' @ [ch CHR 0x27] @ js ''}}'', pos = 6\<rparr>
     = Inr (Arg (STRING (js ''anb'')) None, \<lparr>str = js ''}}'', pos = 11\<rparr>)"
proof -
  let ?input = "js ''{{foo '' @ [ch CHR 0x27] @ js ''a'' @ [0x0A] @ js ''b'' @ [ch CHR 0x27] @ js ''}}''"
  let ?st = "\<lparr>str = [ch CHR 0x27] @ js ''a'' @ [0x0A] @ js ''b'' @ [ch CHR 0x27] @ js ''}}'', pos = 6\<rparr>"
  have n: "(6::nat) = Suc (Suc (Suc (Suc (Suc (Suc 0)))))" by simp
  have tok: "scanToken exampleLexer ?input ?st
      = \<lparr>tokType = js ''STRING'',
         tokText = ch CHR 0x27 # (js ''a'' @ [0x0A] @ js ''b'') @ [ch CHR 0x27]\<rparr>"
    by (simp add: scanToken_def example_defs js_def ch_def n)
  have 1: "tokType (scanToken exampleLexer ?input ?st) = js ''STRING''"
    unfolding tok by simp
  have 2: "tokText (scanToken exampleLexer ?input ?st)
      = ch CHR 0x27 # (js ''a'' @ [0x0A] @ js ''b'') @ [ch CHR 0x27]"
    unfolding tok by simp
  have 3: "ch CHR 0x27 = ch CHR 0x27 \<or> ch CHR 0x27 = ch CHR 0x22"
    by simp
  have 4: "startsWith (ch CHR 0x27 # (js ''a'' @ [0x0A] @ js ''b'') @ [ch CHR 0x27]) (str ?st)"
    by (simp add: startsWith_def js_def ch_def)
  have d: "decodeStringLiteral exampleJSON_parse
        (ch CHR 0x27 # (js ''a'' @ [0x0A] @ js ''b'') @ [ch CHR 0x27]) = Some (js ''anb'')"
    by (simp add: decodeStringLiteral_def lineTerminatorsToN_def swapOuterQuotes_def
        replaceAll_def exampleJSON_parse_def js_def ch_def)
  from scanArg_string_decoding [OF 1 2 3 4, of exampleJSON_parse False] d show ?thesis
    by (simp add: advance_def js_def ch_def)
qed

section \<open>Properties of the template parser\<close>

lemma closeBlock_Some:
  assumes "closeBlock blockName stache stache2 p = Inr (Some s, pos')"
  shows "s = stache \<and> tagType stache2 = BLOCKCLOSE \<and>
         (\<exists>path2. tagPath stache2 = Some path2 \<and> joinComma path2 = blockName) \<and>
         pos' = p + charLength stache2"
  using assms
  by (auto simp: closeBlock_def Let_def split: if_splits option.splits)

lemma closeBlock_mismatch:
  assumes "tagType stache2 = BLOCKCLOSE" and "tagPath stache2 = Some path2"
    and "joinComma path2 \<noteq> blockName"
  shows "closeBlock blockName stache stache2 p = Inl (FatalCloseMismatch blockName (joinComma path2))"
  using assms by (auto simp: closeBlock_def Let_def)

lemma parseBlock_Some:
  assumes "parseBlock lexer JSON_parse parseFragment input stache p position = Inr (Some s, pos')"
  shows "stType s = stType stache \<and> stPath s = stPath stache \<and>
         (\<exists>pos2 stache2 path path2.
            parseStacheTag lexer JSON_parse input pos2 = Inr stache2 \<and>
            tagType stache2 = BLOCKCLOSE \<and> tagPath stache2 = Some path2 \<and>
            stPath stache = Some path \<and> joinComma path2 = joinComma path \<and>
            pos' = pos2 + charLength stache2)"
proof -
  obtain t pa a v c e where st: "stache = Stache t pa a v c e" by (cases stache)
  from assms obtain path where path: "stPath stache = Some path"
    by (auto simp: parseBlock_def split: option.splits)
  from assms path obtain stache' stache2 pos2 where
    cb: "closeBlock (joinComma path) stache' stache2 pos2 = Inr (Some s, pos')" and
    ps: "parseStacheTag lexer JSON_parse input pos2 = Inr stache2" and
    sh: "stType stache' = stType stache \<and> stPath stache' = stPath stache"
    unfolding parseBlock_def Let_def
    by (auto simp: st split: sum.splits prod.splits if_splits)
  from closeBlock_Some [OF cb] ps sh path show ?thesis
    by auto
qed

lemma parseStacheTag_steps:
  assumes "scanTagType \<lparr>str = drop pos0 inputString, pos = pos0\<rparr> = Inr (type, st1)"
    and "scanTagBody lexer JSON_parse inputString type st1 = Inr (tag, st2)"
  shows "parseStacheTag lexer JSON_parse inputString pos0 =
     (case checkTag tag st2 of
        Some e \<Rightarrow> Inl e
      | None \<Rightarrow> Inr (tag\<lparr>charPos := pos0, charLength := pos st2 - pos0\<rparr>))"
  using assms by (simp add: parseStacheTag_def assembleTag_def)

lemmas starts_defs =
  starts_ELSE_def starts_DOUBLE_def starts_TRIPLE_def starts_COMMENT_def starts_INCLUSION_def
  starts_BLOCKOPEN_def starts_BLOCKCLOSE_def startsOpen_def startsSigil_def startsWith_def
  notSigilAhead_def matchesIgnoreCase_def toLowerCase_def spaces_def isSpace_def js_def ch_def
  Let_def

lemmas path_defs =
  scanPath_def scanPathLoop.simps scanPathSegment_def scanSegment_def scanPathDots_def
  scanIdentifier_def scanToken_def expected_def error_def run_def advance_def re_dots_def
  re_oneOf_def re_toBracket_def js_def ch_def Let_def

lemmas args_defs =
  scanArgs.simps scanArgsStep_def scanTagEnd_def run_def advance_def ends_DOUBLE_def
  ends_TRIPLE_def endsWith_def re_spaces_def startsWith_def spaces_def isSpace_def js_def ch_def
  Let_def

lemma startsWith_braces3: "startsWith (js ''{{{'') s \<Longrightarrow> startsWith (js ''{{'') s"
  by (cases s; cases "tl s"; cases "tl (tl s)") (auto simp: startsWith_def js_def)

lemma starts_braces:
  "starts_ELSE s \<noteq> None \<Longrightarrow> startsWith (js ''{{'') s"
  "starts_DOUBLE s \<noteq> None \<Longrightarrow> startsWith (js ''{{'') s"
  "starts_TRIPLE s \<noteq> None \<Longrightarrow> startsWith (js ''{{'') s"
  "starts_COMMENT s \<noteq> None \<Longrightarrow> startsWith (js ''{{'') s"
  "starts_INCLUSION s \<noteq> None \<Longrightarrow> startsWith (js ''{{'') s"
  "starts_BLOCKOPEN s \<noteq> None \<Longrightarrow> startsWith (js ''{{'') s"
  "starts_BLOCKCLOSE s \<noteq> None \<Longrightarrow> startsWith (js ''{{'') s"
  by (auto simp: starts_ELSE_def starts_DOUBLE_def starts_TRIPLE_def starts_COMMENT_def
      starts_INCLUSION_def starts_BLOCKOPEN_def starts_BLOCKCLOSE_def startsOpen_def
      startsSigil_def intro: startsWith_braces3 split: if_splits)

lemma scanTagType_braces:
  assumes "scanTagType st = Inr (t, st')"
  shows "startsWith (js ''{{'') (str st)"
proof (rule ccontr)
  assume n: "\<not> startsWith (js ''{{'') (str st)"
  with starts_braces [of "str st"] have
    "starts_ELSE (str st) = None" "starts_DOUBLE (str st) = None" "starts_TRIPLE (str st) = None"
    "starts_COMMENT (str st) = None" "starts_INCLUSION (str st) = None"
    "starts_BLOCKOPEN (str st) = None" "starts_BLOCKCLOSE (str st) = None"
    by blast+
  with assms show False by (simp add: scanTagType_def run_def)
qed

lemma parseStacheTag_braces:
  assumes "parseStacheTag lexer JSON_parse input pos0 = Inr tag"
  shows "startsWith (js ''{{'') (drop pos0 input)"
proof -
  from assms obtain t st where
    "scanTagType \<lparr>str = drop pos0 input, pos = pos0\<rparr> = Inr (t, st)"
    by (auto simp: parseStacheTag_def assembleTag_def split: sum.splits)
  from scanTagType_braces [OF this] show ?thesis by simp
qed

lemma getSpecialTag_block_direct:
  assumes tag: "parseStacheTag lexer JSON_parse input scannerPos = Inr tag"
    and ty: "tagType tag = BLOCKOPEN" and pa: "tagPath tag = Some path"
    and fr: "parseFragment (if position = IN_RCDATA then Some RCDATA else None) input
               (scannerPos + charLength tag) = Inr (content, pos2)"
    and t2: "parseStacheTag lexer JSON_parse input pos2 = Inr stache2"
    and ty2: "tagType stache2 = BLOCKCLOSE" and pa2: "tagPath stache2 = Some path2"
  shows "getSpecialTag lexer JSON_parse parseFragment input scannerPos position =
     (if joinComma path \<noteq> joinComma path2
      then Inl (FatalCloseMismatch (joinComma path) (joinComma path2))
      else Inr (Some (Stache BLOCKOPEN (Some path) (case tagArgs tag of Some [] \<Rightarrow> None | a \<Rightarrow> a)
                        (tagValue tag) (Some content) None),
                pos2 + charLength stache2))"
proof -
  note sw = parseStacheTag_braces [OF tag] parseStacheTag_braces [OF t2]
  show ?thesis
    using fr
    by (simp add: getSpecialTag_def parseBlock_def closeBlock_def Let_def sw tag ty pa t2 ty2 pa2)
qed

lemma getSpecialTag_block_else:
  assumes tag: "parseStacheTag lexer JSON_parse input scannerPos = Inr tag"
    and ty: "tagType tag = BLOCKOPEN" and pa: "tagPath tag = Some path"
    and fr: "parseFragment (if position = IN_RCDATA then Some RCDATA else None) input
               (scannerPos + charLength tag) = Inr (content, pos2)"
    and te: "parseStacheTag lexer JSON_parse input pos2 = Inr stacheE"
    and tye: "tagType stacheE = ELSE"
    and fr2: "parseFragment (if position = IN_RCDATA then Some RCDATA else None) input
               (pos2 + charLength stacheE) = Inr (elseContent, pos4)"
    and t2: "parseStacheTag lexer JSON_parse input pos4 = Inr stache2"
    and ty2: "tagType stache2 = BLOCKCLOSE" and pa2: "tagPath stache2 = Some path2"
  shows "getSpecialTag lexer JSON_parse parseFragment input scannerPos position =
     (if joinComma path \<noteq> joinComma path2
      then Inl (FatalCloseMismatch (joinComma path) (joinComma path2))
      else Inr (Some (Stache BLOCKOPEN (Some path) (case tagArgs tag of Some [] \<Rightarrow> None | a \<Rightarrow> a)
                        (tagValue tag) (Some content) (Some elseContent)),
                pos4 + charLength stache2))"
proof -
  note sw = parseStacheTag_braces [OF tag] parseStacheTag_braces [OF te]
    parseStacheTag_braces [OF t2]
  show ?thesis
    using fr fr2
    by (simp add: getSpecialTag_def parseBlock_def closeBlock_def Let_def sw tag ty pa te tye
        t2 ty2 pa2)
qed


text \<open>
  C5.  A block is returned by \<open>getSpecialTag\<close> only when a \<open>BLOCKCLOSE\<close> tag with the same
  comma-joined path was parsed and consumed.  Whenever the tag that follows the content of
  a block, or the content after its \<open>{{else}}\<close>, is a \<open>BLOCKCLOSE\<close>, \<open>getSpecialTag\<close>
  throws the fatal error for the mismatch if the comma-joined paths of the two tags
  differ, and otherwise returns the block with its content, behind the closing tag.  For
  a block that opens the input, \<open>Spacebars.parse\<close> throws that error too, for an HTML parser
  that asks the callback at the start of the input; so it does on \<open>{{#a}}{{/b}}\<close>, for an
  HTML parser that also stops where \<open>shouldStop\<close> holds, and a tokenizer that reads \<open>a\<close>
  and \<open>b\<close> as identifiers.
\<close>

theorem block_close_must_match:
  "(\<forall>s pos'. getSpecialTag lexer JSON_parse parseFragment input scannerPos position
               = Inr (Some s, pos') \<and> isBlockOpen s \<longrightarrow>
      (\<exists>pos2 stache2 path path2.
         parseStacheTag lexer JSON_parse input pos2 = Inr stache2 \<and>
         tagType stache2 = BLOCKCLOSE \<and> tagPath stache2 = Some path2 \<and>
         stPath s = Some path \<and> joinComma path2 = joinComma path \<and>
         pos' = pos2 + charLength stache2)) \<and>
   (\<forall>tag path content pos2 stache2 path2.
      parseStacheTag lexer JSON_parse input scannerPos = Inr tag \<and>
      tagType tag = BLOCKOPEN \<and> tagPath tag = Some path \<and>
      parseFragment (if position = IN_RCDATA then Some RCDATA else None) input
        (scannerPos + charLength tag) = Inr (content, pos2) \<and>
      parseStacheTag lexer JSON_parse input pos2 = Inr stache2 \<and>
      tagType stache2 = BLOCKCLOSE \<and> tagPath stache2 = Some path2 \<longrightarrow>
      getSpecialTag lexer JSON_parse parseFragment input scannerPos position =
        (if joinComma path \<noteq> joinComma path2
         then Inl (FatalCloseMismatch (joinComma path) (joinComma path2))
         else Inr (Some (Stache BLOCKOPEN (Some path)
                           (case tagArgs tag of Some [] \<Rightarrow> None | a \<Rightarrow> a)
                           (tagValue tag) (Some content) None),
                   pos2 + charLength stache2))) \<and>
   (\<forall>tag path content pos2 stacheE elseContent pos4 stache2 path2.
      parseStacheTag lexer JSON_parse input scannerPos = Inr tag \<and>
      tagType tag = BLOCKOPEN \<and> tagPath tag = Some path \<and>
      parseFragment (if position = IN_RCDATA then Some RCDATA else None) input
        (scannerPos + charLength tag) = Inr (content, pos2) \<and>
      parseStacheTag lexer JSON_parse input pos2 = Inr stacheE \<and> tagType stacheE = ELSE \<and>
      parseFragment (if position = IN_RCDATA then Some RCDATA else None) input
        (pos2 + charLength stacheE) = Inr (elseContent, pos4) \<and>
      parseStacheTag lexer JSON_parse input pos4 = Inr stache2 \<and>
      tagType stache2 = BLOCKCLOSE \<and> tagPath stache2 = Some path2 \<longrightarrow>
      getSpecialTag lexer JSON_parse parseFragment input scannerPos position =
        (if joinComma path \<noteq> joinComma path2
         then Inl (FatalCloseMismatch (joinComma path) (joinComma path2))
         else Inr (Some (Stache BLOCKOPEN (Some path)
                           (case tagArgs tag of Some [] \<Rightarrow> None | a \<Rightarrow> a)
                           (tagValue tag) (Some content) (Some elseContent)),
                   pos4 + charLength stache2))) \<and>
   (\<forall>tag path content pos2 stache2 path2.
      asksCallbackFirst parseTop \<and>
      parseStacheTag lexer JSON_parse input 0 = Inr tag \<and>
      tagType tag = BLOCKOPEN \<and> tagPath tag = Some path \<and>
      parseFragment None input (charLength tag) = Inr (content, pos2) \<and>
      parseStacheTag lexer JSON_parse input pos2 = Inr stache2 \<and>
      tagType stache2 = BLOCKCLOSE \<and> tagPath stache2 = Some path2 \<and>
      joinComma path \<noteq> joinComma path2 \<longrightarrow>
      Spacebars_parse parseTop lexer JSON_parse parseFragment input
        = Inl (FatalCloseMismatch (joinComma path) (joinComma path2))) \<and>
   (\<forall>tag path content pos2 stacheE elseContent pos4 stache2 path2.
      asksCallbackFirst parseTop \<and>
      parseStacheTag lexer JSON_parse input 0 = Inr tag \<and>
      tagType tag = BLOCKOPEN \<and> tagPath tag = Some path \<and>
      parseFragment None input (charLength tag) = Inr (content, pos2) \<and>
      parseStacheTag lexer JSON_parse input pos2 = Inr stacheE \<and> tagType stacheE = ELSE \<and>
      parseFragment None input (pos2 + charLength stacheE) = Inr (elseContent, pos4) \<and>
      parseStacheTag lexer JSON_parse input pos4 = Inr stache2 \<and>
      tagType stache2 = BLOCKCLOSE \<and> tagPath stache2 = Some path2 \<and>
      joinComma path \<noteq> joinComma path2 \<longrightarrow>
      Spacebars_parse parseTop lexer JSON_parse parseFragment input
        = Inl (FatalCloseMismatch (joinComma path) (joinComma path2))) \<and>
   (asksCallbackFirst parseTop \<and> stopsWhereAsked lexer JSON_parse parseFragment \<and>
    lexer (js ''{{#a}}{{/b}}'') 3 = \<lparr>tokType = js ''IDENTIFIER'', tokText = js ''a''\<rparr> \<and>
    lexer (js ''{{#a}}{{/b}}'') 9 = \<lparr>tokType = js ''IDENTIFIER'', tokText = js ''b''\<rparr> \<longrightarrow>
    Spacebars_parse parseTop lexer JSON_parse parseFragment (js ''{{#a}}{{/b}}'')
      = Inl (FatalCloseMismatch (js ''a'') (js ''b'')))"
proof -
  have 1: "\<exists>pos2 stache2 path path2.
         parseStacheTag lexer JSON_parse input pos2 = Inr stache2 \<and>
         tagType stache2 = BLOCKCLOSE \<and> tagPath stache2 = Some path2 \<and>
         stPath s = Some path \<and> joinComma path2 = joinComma path \<and>
         pos' = pos2 + charLength stache2"
    if g: "getSpecialTag lexer JSON_parse parseFragment input scannerPos position
               = Inr (Some s, pos')" and b: "isBlockOpen s" for s pos'
  proof -
    from g obtain tag where
      tag: "parseStacheTag lexer JSON_parse input scannerPos = Inr tag"
      by (auto simp: getSpecialTag_def split: if_splits sum.splits)
    let ?stache = "Stache (tagType tag) (tagPath tag)
        (case tagArgs tag of Some [] \<Rightarrow> None | a \<Rightarrow> a) (tagValue tag) None None"
    show ?thesis
    proof (cases "tagType tag = BLOCKOPEN")
      case True
      with g tag have
        "parseBlock lexer JSON_parse parseFragment input ?stache (scannerPos + charLength tag) position
           = Inr (Some s, pos')"
        by (auto simp: getSpecialTag_def Let_def split: if_splits)
      from parseBlock_Some [OF this] show ?thesis
        by auto
    next
      case False
      with g tag have "stType s = tagType tag"
        by (auto simp: getSpecialTag_def Let_def split: if_splits)
      with False b show ?thesis by (simp add: isBlockOpen_def)
    qed
  qed
  have 2: "getSpecialTag lexer JSON_parse parseFragment input scannerPos position =
        (if joinComma path \<noteq> joinComma path2
         then Inl (FatalCloseMismatch (joinComma path) (joinComma path2))
         else Inr (Some (Stache BLOCKOPEN (Some path)
                           (case tagArgs tag of Some [] \<Rightarrow> None | a \<Rightarrow> a)
                           (tagValue tag) (Some content) None),
                   pos2 + charLength stache2))"
    if "parseStacheTag lexer JSON_parse input scannerPos = Inr tag \<and>
      tagType tag = BLOCKOPEN \<and> tagPath tag = Some path \<and>
      parseFragment (if position = IN_RCDATA then Some RCDATA else None) input
        (scannerPos + charLength tag) = Inr (content, pos2) \<and>
      parseStacheTag lexer JSON_parse input pos2 = Inr stache2 \<and>
      tagType stache2 = BLOCKCLOSE \<and> tagPath stache2 = Some path2"
    for tag path content pos2 stache2 path2
    using that by (intro getSpecialTag_block_direct) simp_all
  have 3: "getSpecialTag lexer JSON_parse parseFragment input scannerPos position =
        (if joinComma path \<noteq> joinComma path2
         then Inl (FatalCloseMismatch (joinComma path) (joinComma path2))
         else Inr (Some (Stache BLOCKOPEN (Some path)
                           (case tagArgs tag of Some [] \<Rightarrow> None | a \<Rightarrow> a)
                           (tagValue tag) (Some content) (Some elseContent)),
                   pos4 + charLength stache2))"
    if "parseStacheTag lexer JSON_parse input scannerPos = Inr tag \<and>
      tagType tag = BLOCKOPEN \<and> tagPath tag = Some path \<and>
      parseFragment (if position = IN_RCDATA then Some RCDATA else None) input
        (scannerPos + charLength tag) = Inr (content, pos2) \<and>
      parseStacheTag lexer JSON_parse input pos2 = Inr stacheE \<and> tagType stacheE = ELSE \<and>
      parseFragment (if position = IN_RCDATA then Some RCDATA else None) input
        (pos2 + charLength stacheE) = Inr (elseContent, pos4) \<and>
      parseStacheTag lexer JSON_parse input pos4 = Inr stache2 \<and>
      tagType stache2 = BLOCKCLOSE \<and> tagPath stache2 = Some path2"
    for tag path content pos2 stacheE elseContent pos4 stache2 path2
    using that by (intro getSpecialTag_block_else [where stacheE = stacheE and ?pos2.0 = pos2]) simp_all
  have 4: "Spacebars_parse parseTop lexer JSON_parse parseFragment input
        = Inl (FatalCloseMismatch (joinComma path) (joinComma path2))"
    if "asksCallbackFirst parseTop \<and>
      parseStacheTag lexer JSON_parse input 0 = Inr tag \<and>
      tagType tag = BLOCKOPEN \<and> tagPath tag = Some path \<and>
      parseFragment None input (charLength tag) = Inr (content, pos2) \<and>
      parseStacheTag lexer JSON_parse input pos2 = Inr stache2 \<and>
      tagType stache2 = BLOCKCLOSE \<and> tagPath stache2 = Some path2 \<and>
      joinComma path \<noteq> joinComma path2"
    for tag path content pos2 stache2 path2
  proof -
    from that have top: "asksCallbackFirst parseTop"
      and tag: "parseStacheTag lexer JSON_parse input 0 = Inr tag" by simp_all
    from that have "getSpecialTag lexer JSON_parse parseFragment input 0 ELEMENT
        = Inl (FatalCloseMismatch (joinComma path) (joinComma path2))"
      using getSpecialTag_block_direct [of lexer JSON_parse input 0 tag path parseFragment ELEMENT
          content pos2 stache2 path2]
      by simp
    with parseStacheTag_braces [OF tag] top show ?thesis
      unfolding asksCallbackFirst_def Spacebars_parse_def by simp
  qed
  have 5: "Spacebars_parse parseTop lexer JSON_parse parseFragment input
        = Inl (FatalCloseMismatch (joinComma path) (joinComma path2))"
    if "asksCallbackFirst parseTop \<and>
      parseStacheTag lexer JSON_parse input 0 = Inr tag \<and>
      tagType tag = BLOCKOPEN \<and> tagPath tag = Some path \<and>
      parseFragment None input (charLength tag) = Inr (content, pos2) \<and>
      parseStacheTag lexer JSON_parse input pos2 = Inr stacheE \<and> tagType stacheE = ELSE \<and>
      parseFragment None input (pos2 + charLength stacheE) = Inr (elseContent, pos4) \<and>
      parseStacheTag lexer JSON_parse input pos4 = Inr stache2 \<and>
      tagType stache2 = BLOCKCLOSE \<and> tagPath stache2 = Some path2 \<and>
      joinComma path \<noteq> joinComma path2"
    for tag path content pos2 stacheE elseContent pos4 stache2 path2
  proof -
    from that have top: "asksCallbackFirst parseTop"
      and tag: "parseStacheTag lexer JSON_parse input 0 = Inr tag" by simp_all
    from that have "getSpecialTag lexer JSON_parse parseFragment input 0 ELEMENT
        = Inl (FatalCloseMismatch (joinComma path) (joinComma path2))"
      using getSpecialTag_block_else [of lexer JSON_parse input 0 tag path parseFragment ELEMENT
          content pos2 stacheE elseContent pos4 stache2 path2]
      by simp
    with parseStacheTag_braces [OF tag] top show ?thesis
      unfolding asksCallbackFirst_def Spacebars_parse_def by simp
  qed
  have 6: "Spacebars_parse parseTop lexer JSON_parse parseFragment (js ''{{#a}}{{/b}}'')
      = Inl (FatalCloseMismatch (js ''a'') (js ''b''))"
    if top: "asksCallbackFirst parseTop" and frag: "stopsWhereAsked lexer JSON_parse parseFragment"
      and la: "lexer (js ''{{#a}}{{/b}}'') 3 = \<lparr>tokType = js ''IDENTIFIER'', tokText = js ''a''\<rparr>"
      and lb: "lexer (js ''{{#a}}{{/b}}'') 9 = \<lparr>tokType = js ''IDENTIFIER'', tokText = js ''b''\<rparr>"
  proof -
    let ?input = "js ''{{#a}}{{/b}}''"
    have t0: "scanTagType \<lparr>str = drop 0 ?input, pos = 0\<rparr>
        = Inr (BLOCKOPEN, \<lparr>str = js ''a}}{{/b}}'', pos = 3\<rparr>)"
      by (simp add: scanTagType_def run_def advance_def starts_defs)
    have p0: "scanPath lexer ?input \<lparr>str = js ''a}}{{/b}}'', pos = 3\<rparr>
        = Inr ([js ''a''], \<lparr>str = js ''}}{{/b}}'', pos = 4\<rparr>)"
      using la by (simp add: path_defs)
    have a0: "scanArgs lexer JSON_parse ?input BLOCKOPEN [] \<lparr>str = js ''}}{{/b}}'', pos = 4\<rparr>
        = Inr ([], \<lparr>str = js ''{{/b}}'', pos = 6\<rparr>)"
      by (simp add: args_defs)
    have b0: "scanTagBody lexer JSON_parse ?input BLOCKOPEN \<lparr>str = js ''a}}{{/b}}'', pos = 3\<rparr>
        = Inr (\<lparr>tagType = BLOCKOPEN, tagPath = Some [js ''a''], tagArgs = Some [],
                tagValue = None, charPos = 0, charLength = 0\<rparr>, \<lparr>str = js ''{{/b}}'', pos = 6\<rparr>)"
      by (simp add: scanTagBody_def p0 a0 newTag_def)
    have opener: "parseStacheTag lexer JSON_parse ?input 0 =
        Inr \<lparr>tagType = BLOCKOPEN, tagPath = Some [js ''a''], tagArgs = Some [],
             tagValue = None, charPos = 0, charLength = 6\<rparr>"
      using parseStacheTag_steps [OF t0 b0] by (simp add: checkTag_def)
    have t6: "scanTagType \<lparr>str = drop 6 ?input, pos = 6\<rparr>
        = Inr (BLOCKCLOSE, \<lparr>str = js ''b}}'', pos = 9\<rparr>)"
      by (simp add: scanTagType_def run_def advance_def starts_defs)
    have p6: "scanPath lexer ?input \<lparr>str = js ''b}}'', pos = 9\<rparr>
        = Inr ([js ''b''], \<lparr>str = js ''}}'', pos = 10\<rparr>)"
      using lb by (simp add: path_defs)
    have b6: "scanTagBody lexer JSON_parse ?input BLOCKCLOSE \<lparr>str = js ''b}}'', pos = 9\<rparr>
        = Inr (\<lparr>tagType = BLOCKCLOSE, tagPath = Some [js ''b''], tagArgs = None,
                tagValue = None, charPos = 0, charLength = 0\<rparr>, \<lparr>str = [], pos = 12\<rparr>)"
      unfolding scanTagBody_def p6
      by (simp add: newTag_def run_def advance_def ends_DOUBLE_def endsWith_def startsWith_def
          spaces_def isSpace_def js_def ch_def)
    have closer: "parseStacheTag lexer JSON_parse ?input 6 =
        Inr \<lparr>tagType = BLOCKCLOSE, tagPath = Some [js ''b''], tagArgs = None,
             tagValue = None, charPos = 6, charLength = 6\<rparr>"
      using parseStacheTag_steps [OF t6 b6] by (simp add: checkTag_def)
    have "isAtBlockCloseOrElse lexer JSON_parse ?input 6 = Inr True"
      unfolding isAtBlockCloseOrElse_def closer
      by (simp add: test_closeOrElse_def startsWith_def spaces_def isSpace_def js_def ch_def)
    with frag obtain content where
      content: "parseFragment None ?input 6 = Inr (content, 6)"
      unfolding stopsWhereAsked_def by blast
    have sw0: "startsWith (js ''{{'') ?input"
      by (simp add: startsWith_def js_def)
    have sw6: "startsWith (js ''{{'') (drop 6 ?input)"
      by (simp add: startsWith_def js_def)
    have ne: "js ''a'' \<noteq> js ''b''"
      by (simp add: js_def ch_def)
    have "getSpecialTag lexer JSON_parse parseFragment ?input 0 ELEMENT
        = Inl (FatalCloseMismatch (js ''a'') (js ''b''))"
      by (simp add: getSpecialTag_def opener sw0 sw6 ne parseBlock_def closeBlock_def content closer)
    with sw0 show ?thesis
      using top unfolding asksCallbackFirst_def Spacebars_parse_def by blast
  qed
  from 1 2 3 4 5 6 show ?thesis by blast
qed

lemma exampleTop_asks: "asksCallbackFirst exampleTop"
  by (simp add: asksCallbackFirst_def exampleTop_def)

lemma exampleFragment_stops: "stopsWhereAsked lexer JSON_parse exampleFragment"
  by (simp add: stopsWhereAsked_def exampleFragment_def)

theorem block_close_must_match_witness:
  "asksCallbackFirst exampleTop \<and>
   stopsWhereAsked exampleLexer exampleJSON_parse exampleFragment \<and>
   Spacebars_parse exampleTop exampleLexer exampleJSON_parse exampleFragment (js ''{{#a}}{{/b}}'')
     = Inl (FatalCloseMismatch (js ''a'') (js ''b'')) \<and>
   getSpecialTag exampleLexer exampleJSON_parse exampleFragment (js ''{{#a}}{{else}}{{/b}}'') 0 ELEMENT
     = Inl (FatalCloseMismatch (js ''a'') (js ''b'')) \<and>
   Spacebars_parse exampleTop exampleLexer exampleJSON_parse exampleFragment
       (js ''{{#a}}{{else}}{{/b}}'')
     = Inl (FatalCloseMismatch (js ''a'') (js ''b'')) \<and>
   getSpecialTag exampleLexer exampleJSON_parse exampleFragment (js ''{{#a}}{{/a}}'') 0 ELEMENT
     = Inr (Some (Stache BLOCKOPEN (Some [js ''a'']) None None (Some Null) None), 12) \<and>
   (\<exists>pos2 stache2 path2.
      parseStacheTag exampleLexer exampleJSON_parse (js ''{{#a}}{{/a}}'') pos2 = Inr stache2 \<and>
      tagType stache2 = BLOCKCLOSE \<and> tagPath stache2 = Some path2 \<and>
      joinComma path2 = js ''a'' \<and> 12 = pos2 + charLength stache2)"
proof -
  let ?bad = "js ''{{#a}}{{/b}}''"
  let ?else = "js ''{{#a}}{{else}}{{/b}}''"
  let ?input = "js ''{{#a}}{{/a}}''"
  have la: "exampleLexer ?bad 3 = \<lparr>tokType = js ''IDENTIFIER'', tokText = js ''a''\<rparr>"
    by (simp add: example_defs js_def ch_def)
  have lb: "exampleLexer ?bad 9 = \<lparr>tokType = js ''IDENTIFIER'', tokText = js ''b''\<rparr>"
    by (simp add: example_defs js_def ch_def)
  have bad: "Spacebars_parse exampleTop exampleLexer exampleJSON_parse exampleFragment ?bad
     = Inl (FatalCloseMismatch (js ''a'') (js ''b''))"
    using block_close_must_match [of exampleLexer exampleJSON_parse exampleFragment ?bad 0 ELEMENT exampleTop,
        THEN conjunct2, THEN conjunct2, THEN conjunct2, THEN conjunct2, THEN conjunct2]
      exampleTop_asks exampleFragment_stops [of exampleLexer exampleJSON_parse] la lb
    by blast
  have ne: "joinComma [js ''a''] \<noteq> joinComma [js ''b'']"
    by (simp add: js_def ch_def)
  have e3: "exampleLexer ?else 3 = \<lparr>tokType = js ''IDENTIFIER'', tokText = js ''a''\<rparr>"
    by (simp add: example_defs js_def ch_def)
  have e17: "exampleLexer ?else 17 = \<lparr>tokType = js ''IDENTIFIER'', tokText = js ''b''\<rparr>"
    by (simp add: example_defs js_def ch_def)
  have et0: "scanTagType \<lparr>str = drop 0 ?else, pos = 0\<rparr>
      = Inr (BLOCKOPEN, \<lparr>str = js ''a}}{{else}}{{/b}}'', pos = 3\<rparr>)"
    by (simp add: scanTagType_def run_def advance_def starts_defs)
  have ep0: "scanPath exampleLexer ?else \<lparr>str = js ''a}}{{else}}{{/b}}'', pos = 3\<rparr>
      = Inr ([js ''a''], \<lparr>str = js ''}}{{else}}{{/b}}'', pos = 4\<rparr>)"
    using e3 by (simp add: path_defs)
  have ea0: "scanArgs exampleLexer exampleJSON_parse ?else BLOCKOPEN []
        \<lparr>str = js ''}}{{else}}{{/b}}'', pos = 4\<rparr>
      = Inr ([], \<lparr>str = js ''{{else}}{{/b}}'', pos = 6\<rparr>)"
    by (simp add: args_defs)
  have eb0: "scanTagBody exampleLexer exampleJSON_parse ?else BLOCKOPEN
        \<lparr>str = js ''a}}{{else}}{{/b}}'', pos = 3\<rparr>
      = Inr (\<lparr>tagType = BLOCKOPEN, tagPath = Some [js ''a''], tagArgs = Some [],
              tagValue = None, charPos = 0, charLength = 0\<rparr>,
             \<lparr>str = js ''{{else}}{{/b}}'', pos = 6\<rparr>)"
    by (simp add: scanTagBody_def ep0 ea0 newTag_def)
  have eopener: "parseStacheTag exampleLexer exampleJSON_parse ?else 0 =
      Inr \<lparr>tagType = BLOCKOPEN, tagPath = Some [js ''a''], tagArgs = Some [],
           tagValue = None, charPos = 0, charLength = 6\<rparr>"
    using parseStacheTag_steps [OF et0 eb0] by (simp add: checkTag_def)
  have et6: "scanTagType \<lparr>str = drop 6 ?else, pos = 6\<rparr>
      = Inr (ELSE, \<lparr>str = js ''}}{{/b}}'', pos = 12\<rparr>)"
    by (simp add: scanTagType_def run_def advance_def starts_defs)
  have eb6: "scanTagBody exampleLexer exampleJSON_parse ?else ELSE \<lparr>str = js ''}}{{/b}}'', pos = 12\<rparr>
      = Inr (newTag ELSE, \<lparr>str = js ''{{/b}}'', pos = 14\<rparr>)"
    by (simp add: scanTagBody_def run_def advance_def ends_DOUBLE_def endsWith_def startsWith_def
        spaces_def isSpace_def js_def ch_def)
  have eelse: "parseStacheTag exampleLexer exampleJSON_parse ?else 6 =
      Inr \<lparr>tagType = ELSE, tagPath = None, tagArgs = None, tagValue = None,
           charPos = 6, charLength = 8\<rparr>"
    using parseStacheTag_steps [OF et6 eb6] by (simp add: checkTag_def newTag_def)
  have et14: "scanTagType \<lparr>str = drop 14 ?else, pos = 14\<rparr>
      = Inr (BLOCKCLOSE, \<lparr>str = js ''b}}'', pos = 17\<rparr>)"
    by (simp add: scanTagType_def run_def advance_def starts_defs)
  have ep14: "scanPath exampleLexer ?else \<lparr>str = js ''b}}'', pos = 17\<rparr>
      = Inr ([js ''b''], \<lparr>str = js ''}}'', pos = 18\<rparr>)"
    using e17 by (simp add: path_defs)
  have eb14: "scanTagBody exampleLexer exampleJSON_parse ?else BLOCKCLOSE \<lparr>str = js ''b}}'', pos = 17\<rparr>
      = Inr (\<lparr>tagType = BLOCKCLOSE, tagPath = Some [js ''b''], tagArgs = None,
              tagValue = None, charPos = 0, charLength = 0\<rparr>, \<lparr>str = [], pos = 20\<rparr>)"
    unfolding scanTagBody_def ep14
    by (simp add: newTag_def run_def advance_def ends_DOUBLE_def endsWith_def startsWith_def
        spaces_def isSpace_def js_def ch_def)
  have ecloser: "parseStacheTag exampleLexer exampleJSON_parse ?else 14 =
      Inr \<lparr>tagType = BLOCKCLOSE, tagPath = Some [js ''b''], tagArgs = None,
           tagValue = None, charPos = 14, charLength = 6\<rparr>"
    using parseStacheTag_steps [OF et14 eb14] by (simp add: checkTag_def)
  note einst = block_close_must_match [of exampleLexer exampleJSON_parse exampleFragment ?else 0 ELEMENT exampleTop]
  have eget: "getSpecialTag exampleLexer exampleJSON_parse exampleFragment ?else 0 ELEMENT
     = Inl (FatalCloseMismatch (js ''a'') (js ''b''))"
    using einst [THEN conjunct2, THEN conjunct2, THEN conjunct1, rule_format,
        of "\<lparr>tagType = BLOCKOPEN, tagPath = Some [js ''a''], tagArgs = Some [],
             tagValue = None, charPos = 0, charLength = 6\<rparr>" "[js ''a'']" Null 6
           "\<lparr>tagType = ELSE, tagPath = None, tagArgs = None, tagValue = None,
             charPos = 6, charLength = 8\<rparr>" Null 14
           "\<lparr>tagType = BLOCKCLOSE, tagPath = Some [js ''b''], tagArgs = None,
             tagValue = None, charPos = 14, charLength = 6\<rparr>" "[js ''b'']"]
      eopener eelse ecloser ne
    by (simp add: exampleFragment_def)
  have eparse: "Spacebars_parse exampleTop exampleLexer exampleJSON_parse exampleFragment ?else
     = Inl (FatalCloseMismatch (js ''a'') (js ''b''))"
    using einst [THEN conjunct2, THEN conjunct2, THEN conjunct2, THEN conjunct2, THEN conjunct1,
        rule_format,
        of "\<lparr>tagType = BLOCKOPEN, tagPath = Some [js ''a''], tagArgs = Some [],
             tagValue = None, charPos = 0, charLength = 6\<rparr>" "[js ''a'']" Null 6
           "\<lparr>tagType = ELSE, tagPath = None, tagArgs = None, tagValue = None,
             charPos = 6, charLength = 8\<rparr>" Null 14
           "\<lparr>tagType = BLOCKCLOSE, tagPath = Some [js ''b''], tagArgs = None,
             tagValue = None, charPos = 14, charLength = 6\<rparr>" "[js ''b'']"]
      eopener eelse ecloser ne exampleTop_asks
    by (simp add: exampleFragment_def)
  have l3: "exampleLexer ?input 3 = \<lparr>tokType = js ''IDENTIFIER'', tokText = js ''a''\<rparr>"
    by (simp add: example_defs js_def ch_def)
  have l9: "exampleLexer ?input 9 = \<lparr>tokType = js ''IDENTIFIER'', tokText = js ''a''\<rparr>"
    by (simp add: example_defs js_def ch_def)
  have t0: "scanTagType \<lparr>str = drop 0 ?input, pos = 0\<rparr>
      = Inr (BLOCKOPEN, \<lparr>str = js ''a}}{{/a}}'', pos = 3\<rparr>)"
    by (simp add: scanTagType_def run_def advance_def starts_defs)
  have p0: "scanPath exampleLexer ?input \<lparr>str = js ''a}}{{/a}}'', pos = 3\<rparr>
      = Inr ([js ''a''], \<lparr>str = js ''}}{{/a}}'', pos = 4\<rparr>)"
    using l3 by (simp add: path_defs)
  have a0: "scanArgs exampleLexer exampleJSON_parse ?input BLOCKOPEN []
        \<lparr>str = js ''}}{{/a}}'', pos = 4\<rparr>
      = Inr ([], \<lparr>str = js ''{{/a}}'', pos = 6\<rparr>)"
    by (simp add: args_defs)
  have b0: "scanTagBody exampleLexer exampleJSON_parse ?input BLOCKOPEN
        \<lparr>str = js ''a}}{{/a}}'', pos = 3\<rparr>
      = Inr (\<lparr>tagType = BLOCKOPEN, tagPath = Some [js ''a''], tagArgs = Some [],
              tagValue = None, charPos = 0, charLength = 0\<rparr>, \<lparr>str = js ''{{/a}}'', pos = 6\<rparr>)"
    by (simp add: scanTagBody_def p0 a0 newTag_def)
  have opener: "parseStacheTag exampleLexer exampleJSON_parse ?input 0 =
      Inr \<lparr>tagType = BLOCKOPEN, tagPath = Some [js ''a''], tagArgs = Some [],
           tagValue = None, charPos = 0, charLength = 6\<rparr>"
    using parseStacheTag_steps [OF t0 b0] by (simp add: checkTag_def)
  have t6: "scanTagType \<lparr>str = drop 6 ?input, pos = 6\<rparr>
      = Inr (BLOCKCLOSE, \<lparr>str = js ''a}}'', pos = 9\<rparr>)"
    by (simp add: scanTagType_def run_def advance_def starts_defs)
  have p6: "scanPath exampleLexer ?input \<lparr>str = js ''a}}'', pos = 9\<rparr>
      = Inr ([js ''a''], \<lparr>str = js ''}}'', pos = 10\<rparr>)"
    using l9 by (simp add: path_defs)
  have b6: "scanTagBody exampleLexer exampleJSON_parse ?input BLOCKCLOSE \<lparr>str = js ''a}}'', pos = 9\<rparr>
      = Inr (\<lparr>tagType = BLOCKCLOSE, tagPath = Some [js ''a''], tagArgs = None,
              tagValue = None, charPos = 0, charLength = 0\<rparr>, \<lparr>str = [], pos = 12\<rparr>)"
    unfolding scanTagBody_def p6
    by (simp add: newTag_def run_def advance_def ends_DOUBLE_def endsWith_def startsWith_def
        spaces_def isSpace_def js_def ch_def)
  have closer: "parseStacheTag exampleLexer exampleJSON_parse ?input 6 =
      Inr \<lparr>tagType = BLOCKCLOSE, tagPath = Some [js ''a''], tagArgs = None,
           tagValue = None, charPos = 6, charLength = 6\<rparr>"
    using parseStacheTag_steps [OF t6 b6] by (simp add: checkTag_def)
  note inst = block_close_must_match [of exampleLexer exampleJSON_parse exampleFragment ?input 0 ELEMENT exampleTop]
  have good: "getSpecialTag exampleLexer exampleJSON_parse exampleFragment ?input 0 ELEMENT
     = Inr (Some (Stache BLOCKOPEN (Some [js ''a'']) None None (Some Null) None), 12)"
    using inst [THEN conjunct2, THEN conjunct1, rule_format,
        of "\<lparr>tagType = BLOCKOPEN, tagPath = Some [js ''a''], tagArgs = Some [],
             tagValue = None, charPos = 0, charLength = 6\<rparr>" "[js ''a'']" Null 6
           "\<lparr>tagType = BLOCKCLOSE, tagPath = Some [js ''a''], tagArgs = None,
             tagValue = None, charPos = 6, charLength = 6\<rparr>" "[js ''a'']"]
      opener closer
    by (simp add: exampleFragment_def)
  have "isBlockOpen (Stache BLOCKOPEN (Some [js ''a'']) None None (Some Null) None)"
    by (simp add: isBlockOpen_def)
  with good inst
  have ex: "\<exists>pos2 stache2 path2.
      parseStacheTag exampleLexer exampleJSON_parse ?input pos2 = Inr stache2 \<and>
      tagType stache2 = BLOCKCLOSE \<and> tagPath stache2 = Some path2 \<and>
      joinComma path2 = js ''a'' \<and> 12 = pos2 + charLength stache2"
    by fastforce
  from exampleTop_asks exampleFragment_stops bad eget eparse good ex show ?thesis
    by blast
qed

lemma starts_ELSE_type:
  assumes "starts_ELSE (drop pos0 inputString) = Some n"
  shows "scanTagType \<lparr>str = drop pos0 inputString, pos = pos0\<rparr>
     = Inr (ELSE, \<lparr>str = drop (pos0 + n) inputString, pos = pos0 + n\<rparr>)"
  using assms by (simp add: scanTagType_def run_def advance_def add.commute)

lemma scanTagBody_ELSE:
  "scanTagBody lexer JSON_parse inputString ELSE st =
     (case run ends_DOUBLE st of
        (None, _) \<Rightarrow> Inl (expected (js ''`}}`'') st)
      | (Some _, st') \<Rightarrow> Inr (newTag ELSE, st'))"
  by (simp add: scanTagBody_def)

lemma parseStacheTag_ELSE:
  assumes "starts_ELSE (drop pos0 inputString) = Some n"
  shows "case parseStacheTag lexer JSON_parse inputString pos0 of
           Inr tag \<Rightarrow> tagType tag = ELSE \<and> tagPath tag = None \<and> tagArgs tag = None
         | Inl e \<Rightarrow> e = expected (js ''`}}`'')
                        \<lparr>str = drop (pos0 + n) inputString, pos = pos0 + n\<rparr>"
  by (simp add: parseStacheTag_def assembleTag_def starts_ELSE_type [OF assms] scanTagBody_ELSE
      checkTag_def newTag_def split: prod.splits option.splits)

lemma starts_ELSE_braces: "starts_ELSE s = Some n \<Longrightarrow> startsWith (js ''{{'') s"
  by (simp add: starts_ELSE_def split: if_splits)

lemma getSpecialTag_ELSE:
  assumes "starts_ELSE (drop scannerPos input) = Some n"
  shows "getSpecialTag lexer JSON_parse parseFragment input scannerPos position
           = Inl (Fatal (js ''Found unexpected {{else}}}'')) \<or>
         getSpecialTag lexer JSON_parse parseFragment input scannerPos position
           = Inl (StacheError (expected (js ''`}}`'')
                    \<lparr>str = drop (scannerPos + n) input, pos = scannerPos + n\<rparr>))"
proof (cases "parseStacheTag lexer JSON_parse input scannerPos")
  case (Inl e)
  with parseStacheTag_ELSE [OF assms, of lexer JSON_parse] starts_ELSE_braces [OF assms]
  show ?thesis by (simp add: getSpecialTag_def)
next
  case (Inr tag)
  with parseStacheTag_ELSE [OF assms, of lexer JSON_parse] starts_ELSE_braces [OF assms]
  show ?thesis by (simp add: getSpecialTag_def)
qed

text \<open>
  C6.  Where the \<open>ELSE\<close> opener matches, \<open>parseStacheTag\<close> either returns a tag of type
  \<open>ELSE\<close> (with no path and no arguments, so never a \<open>DOUBLE\<close> with the path \<open>else\<close>)
  or throws \<open>Expected `}}`\<close>, and \<open>getSpecialTag\<close> throws: the fatal error for an
  unexpected \<open>{{else}}\<close>, or that error of the scanner.  \<open>{{ else }}\<close> is parsed as an
  \<open>ELSE\<close> tag, and \<open>Spacebars.parse\<close> on it throws the fatal error, for an HTML parser that
  asks the callback at the start of the input.
\<close>

theorem else_tag_is_ELSE:
  "(\<forall>n. starts_ELSE (drop pos0 input) = Some n \<longrightarrow>
      (case parseStacheTag lexer JSON_parse input pos0 of
         Inr tag \<Rightarrow> tagType tag = ELSE \<and> tagPath tag = None \<and> tagArgs tag = None
       | Inl e \<Rightarrow> e = expected (js ''`}}`'') \<lparr>str = drop (pos0 + n) input, pos = pos0 + n\<rparr>) \<and>
      (getSpecialTag lexer JSON_parse parseFragment input pos0 position
         = Inl (Fatal (js ''Found unexpected {{else}}}'')) \<or>
       getSpecialTag lexer JSON_parse parseFragment input pos0 position
         = Inl (StacheError (expected (js ''`}}`'')
                  \<lparr>str = drop (pos0 + n) input, pos = pos0 + n\<rparr>)))) \<and>
   starts_ELSE (js ''{{ else }}'') = Some 7 \<and>
   parseStacheTag lexer JSON_parse (js ''{{ else }}'') 0
     = Inr \<lparr>tagType = ELSE, tagPath = None, tagArgs = None, tagValue = None,
            charPos = 0, charLength = 10\<rparr> \<and>
   (asksCallbackFirst parseTop \<longrightarrow>
      Spacebars_parse parseTop lexer JSON_parse parseFragment (js ''{{ else }}'')
        = Inl (Fatal (js ''Found unexpected {{else}}}'')))"
proof -
  let ?input = "js ''{{ else }}''"
  have s: "starts_ELSE ?input = Some 7"
    by (simp add: starts_defs)
  have t: "scanTagType \<lparr>str = drop 0 ?input, pos = 0\<rparr>
      = Inr (ELSE, \<lparr>str = js '' }}'', pos = 7\<rparr>)"
    using starts_ELSE_type [of 0 ?input 7] s by (simp add: js_def)
  have b: "scanTagBody lexer JSON_parse ?input ELSE \<lparr>str = js '' }}'', pos = 7\<rparr>
      = Inr (newTag ELSE, \<lparr>str = [], pos = 10\<rparr>)"
    by (simp add: scanTagBody_ELSE run_def advance_def ends_DOUBLE_def endsWith_def startsWith_def
        spaces_def isSpace_def js_def ch_def)
  have p: "parseStacheTag lexer JSON_parse ?input 0
     = Inr \<lparr>tagType = ELSE, tagPath = None, tagArgs = None, tagValue = None,
            charPos = 0, charLength = 10\<rparr>"
    using parseStacheTag_steps [OF t b] by (simp add: checkTag_def newTag_def)
  have sw: "startsWith (js ''{{'') ?input"
    by (simp add: startsWith_def js_def)
  have g: "getSpecialTag lexer JSON_parse parseFragment ?input 0 ELEMENT
      = Inl (Fatal (js ''Found unexpected {{else}}}''))"
    by (simp add: getSpecialTag_def p sw)
  have top: "Spacebars_parse parseTop lexer JSON_parse parseFragment ?input
        = Inl (Fatal (js ''Found unexpected {{else}}}''))"
    if "asksCallbackFirst parseTop"
    using that g sw unfolding asksCallbackFirst_def Spacebars_parse_def by blast
  from parseStacheTag_ELSE [of pos0 input _ lexer JSON_parse]
    getSpecialTag_ELSE [of pos0 input _ lexer JSON_parse parseFragment position] s p top
  show ?thesis by blast
qed

theorem else_tag_is_ELSE_witness:
  "starts_ELSE (drop 0 (js ''{{else x}}'')) = Some 6 \<and>
   parseStacheTag exampleLexer exampleJSON_parse (js ''{{else x}}'') 0
     = Inl (expected (js ''`}}`'') \<lparr>str = js '' x}}'', pos = 6\<rparr>) \<and>
   getSpecialTag exampleLexer exampleJSON_parse exampleFragment (js ''{{else x}}'') 0 ELEMENT
     = Inl (StacheError (expected (js ''`}}`'') \<lparr>str = js '' x}}'', pos = 6\<rparr>)) \<and>
   asksCallbackFirst exampleTop \<and>
   Spacebars_parse exampleTop exampleLexer exampleJSON_parse exampleFragment (js ''{{ else }}'')
     = Inl (Fatal (js ''Found unexpected {{else}}}''))"
proof -
  let ?input = "js ''{{else x}}''"
  have s: "starts_ELSE (drop 0 ?input) = Some 6"
    by (simp add: starts_defs)
  note inst = else_tag_is_ELSE [of 0 ?input exampleLexer exampleJSON_parse exampleFragment ELEMENT
      exampleTop]
  have t: "scanTagType \<lparr>str = drop 0 ?input, pos = 0\<rparr>
      = Inr (ELSE, \<lparr>str = js '' x}}'', pos = 6\<rparr>)"
    using starts_ELSE_type [of 0 ?input 6] s by (simp add: js_def)
  have b: "scanTagBody exampleLexer exampleJSON_parse ?input ELSE \<lparr>str = js '' x}}'', pos = 6\<rparr>
      = Inl (expected (js ''`}}`'') \<lparr>str = js '' x}}'', pos = 6\<rparr>)"
    by (simp add: scanTagBody_ELSE run_def advance_def ends_DOUBLE_def endsWith_def startsWith_def
        spaces_def isSpace_def js_def ch_def)
  have p: "parseStacheTag exampleLexer exampleJSON_parse ?input 0
     = Inl (expected (js ''`}}`'') \<lparr>str = js '' x}}'', pos = 6\<rparr>)"
    using t b by (simp add: parseStacheTag_def assembleTag_def)
  have g: "getSpecialTag exampleLexer exampleJSON_parse exampleFragment ?input 0 ELEMENT
     = Inl (StacheError (expected (js ''`}}`'') \<lparr>str = js '' x}}'', pos = 6\<rparr>))"
    using inst s p by (auto simp: getSpecialTag_def split: if_splits)
  have top: "Spacebars_parse exampleTop exampleLexer exampleJSON_parse exampleFragment (js ''{{ else }}'')
     = Inl (Fatal (js ''Found unexpected {{else}}}''))"
    using inst exampleTop_asks by blast
  from s p g exampleTop_asks top show ?thesis by blast
qed

end
